theory Spec2Isabelle
  imports Main "HOL-Library.Char_ord" "HOL-Library.List_Lexorder"
begin

section \<open>Timestamps\<close>

text \<open>
  Python's \<open>datetime\<close> object, as \<open>datetime.datetime.now()\<close> returns it: the calendar
  fields and the microsecond. The program never compares two of these objects; it renders
  them with \<open>strftime("%Y-%m-%d %H:%M:%S")\<close> and lets SQLite compare the TEXT columns
  (BINARY collation: byte by byte).
\<close>

record datetime =
  year :: nat
  month :: nat
  day :: nat
  hour :: nat
  minute :: nat
  second :: nat
  microsecond :: nat

definition is_leap :: "nat \<Rightarrow> bool" where
  "is_leap y = (y mod 4 = 0 \<and> (y mod 100 \<noteq> 0 \<or> y mod 400 = 0))"

definition days_in_month :: "nat \<Rightarrow> nat \<Rightarrow> nat" where
  "days_in_month y m =
     (if m = 2 then (if is_leap y then 29 else 28)
      else if m = 4 \<or> m = 6 \<or> m = 9 \<or> m = 11 then 30 else 31)"

text \<open>The values a \<open>datetime\<close> object can hold (MINYEAR = 1, MAXYEAR = 9999).\<close>

definition valid_datetime :: "datetime \<Rightarrow> bool" where
  "valid_datetime t =
     (1 \<le> year t \<and> year t \<le> 9999 \<and> 1 \<le> month t \<and> month t \<le> 12 \<and>
      1 \<le> day t \<and> day t \<le> days_in_month (year t) (month t) \<and>
      hour t < 24 \<and> minute t < 60 \<and> second t < 60 \<and> microsecond t < 1000000)"

text \<open>Comparison of \<open>datetime\<close> objects (\<open>t1 <= t2\<close>): lexicographic on all seven fields.\<close>

definition dt_key :: "datetime \<Rightarrow> nat list" where
  "dt_key t = [year t, month t, day t, hour t, minute t, second t, microsecond t]"

definition dt_le :: "datetime \<Rightarrow> datetime \<Rightarrow> bool" where
  "dt_le t1 t2 = (dt_key t1 \<le> dt_key t2)"

text \<open>The same comparison after both sides are cut to whole seconds.\<close>

definition trunc_seconds :: "datetime \<Rightarrow> datetime" where
  "trunc_seconds t = t\<lparr>microsecond := 0\<rparr>"

definition digit_char :: "nat \<Rightarrow> char" where
  "digit_char d = char_of (48 + d)"

fun dec :: "nat \<Rightarrow> string" where
  "dec n = (if n < 10 then [digit_char n] else dec (n div 10) @ [digit_char (n mod 10)])"

declare dec.simps [simp del]

definition zfill :: "nat \<Rightarrow> string \<Rightarrow> string" where
  "zfill w s = replicate (w - length s) CHR ''0'' @ s"

text \<open>
  \<open>strftime("%Y-%m-%d %H:%M:%S")\<close>. \<open>%m %d %H %M %S\<close> are zero-padded to two digits;
  \<open>%Y\<close> is the decimal year, which has four digits from year 1000 on (the C library the
  program runs on does not pad smaller years). The microsecond is not rendered.
\<close>

definition strftime :: "datetime \<Rightarrow> string" where
  "strftime t =
     dec (year t) @ ''-'' @ zfill 2 (dec (month t)) @ ''-'' @ zfill 2 (dec (day t)) @ '' '' @
     zfill 2 (dec (hour t)) @ '':'' @ zfill 2 (dec (minute t)) @ '':'' @ zfill 2 (dec (second t))"

text \<open>
  Two auxiliary notions for reasoning about the rendering: the decimal digits of a number at
  a fixed width, and the six rendered fields of a timestamp.
\<close>

fun fixw :: "nat \<Rightarrow> nat \<Rightarrow> string" where
  "fixw 0 n = []"
| "fixw (Suc k) n = fixw k (n div 10) @ [digit_char (n mod 10)]"

definition key6 :: "datetime \<Rightarrow> nat list" where
  "key6 t = [year t, month t, day t, hour t, minute t, second t]"

text \<open>
  \<open>datetime + timedelta(minutes=m)\<close>: the minutes carry into hours and days, the days
  into the calendar; a result after year 9999 raises OverflowError (here \<open>None\<close>).
\<close>

definition next_day :: "datetime \<Rightarrow> datetime" where
  "next_day t =
     (if day t < days_in_month (year t) (month t) then t\<lparr>day := day t + 1\<rparr>
      else if month t < 12 then t\<lparr>month := month t + 1, day := 1\<rparr>
      else t\<lparr>year := year t + 1, month := 1, day := 1\<rparr>)"

definition plus_minutes :: "datetime \<Rightarrow> nat \<Rightarrow> datetime option" where
  "plus_minutes t m =
     (let total = hour t * 60 + minute t + m;
          t' = ((next_day ^^ (total div 1440)) t)
                 \<lparr>hour := total mod 1440 div 60, minute := total mod 60\<rparr>
      in if year t' \<le> 9999 then Some t' else None)"

section \<open>The database\<close>

text \<open>
  The four tables the alert callback touches, each a list of rows in rowid order, and the
  AUTOINCREMENT counters (\<open>sqlite_sequence\<close>) of the three tables it inserts into.
\<close>

record filter_state_row =
  fs_id :: int
  fs_timestamp :: string
  fs_filter_state :: string

record user_control_row =
  uc_id :: int
  uc_timestamp :: string
  uc_user_input :: string

record processed_events_row =
  pe_processed_id :: int
  pe_event_id :: int
  pe_action :: string
  pe_processed_timestamp :: string

record reminders_row =
  rm_reminder_id :: int
  rm_event_id :: int
  rm_reminder_time :: string
  rm_reminder_type :: string

record db =
  filter_state :: "filter_state_row list"
  user_control :: "user_control_row list"
  processed_events :: "processed_events_row list"
  reminders :: "reminders_row list"
  seq_user_control :: int
  seq_processed_events :: int
  seq_reminders :: int

text \<open>
  What one invocation sees of the world outside its arguments: the clock, and for each
  helper whether its database work raises (\<open>sqlite3.Error\<close> or any other exception from
  connecting, executing or committing). Every helper catches that, logs it and returns its
  default; a helper that raised has not committed anything.
\<close>

record env =
  now :: datetime
  fail_get_last_filter_state :: bool
  fail_get_due_reminder :: bool
  fail_is_event_processed :: bool
  fail_record_event_as_processed :: bool
  fail_add_reminder :: bool
  fail_remove_reminder :: bool
  fail_update_user_control_decision :: bool

section \<open>Helper functions\<close>

text \<open>\<open>SELECT id, filter_state FROM filter_state ORDER BY id DESC LIMIT 1\<close>.\<close>

fun max_id_row :: "filter_state_row \<Rightarrow> filter_state_row list \<Rightarrow> filter_state_row" where
  "max_id_row r [] = r"
| "max_id_row r (x # xs) = max_id_row (if fs_id r < fs_id x then x else r) xs"

definition get_last_filter_state :: "env \<Rightarrow> db \<Rightarrow> int option \<times> string" where
  "get_last_filter_state e d =
     (if fail_get_last_filter_state e then (None, ''OFF'')
      else case filter_state d of
             [] \<Rightarrow> (None, ''OFF'')
           | r # rs \<Rightarrow> (let x = max_id_row r rs in (Some (fs_id x), fs_filter_state x)))"

text \<open>\<open>SELECT event_id FROM processed_events WHERE event_id=?\<close>, then \<open>result is not None\<close>.\<close>

definition is_event_processed :: "env \<Rightarrow> db \<Rightarrow> int \<Rightarrow> bool" where
  "is_event_processed e d event_id =
     (if fail_is_event_processed e then False
      else list_ex (\<lambda>r. pe_event_id r = event_id) (processed_events d))"

definition record_event_as_processed :: "env \<Rightarrow> int \<Rightarrow> string \<Rightarrow> db \<Rightarrow> db" where
  "record_event_as_processed e event_id action d =
     (if fail_record_event_as_processed e then d
      else d\<lparr>processed_events := processed_events d @
                 [\<lparr>pe_processed_id = seq_processed_events d + 1, pe_event_id = event_id,
                   pe_action = action, pe_processed_timestamp = strftime (now e)\<rparr>],
              seq_processed_events := seq_processed_events d + 1\<rparr>)"

definition add_reminder :: "env \<Rightarrow> int \<Rightarrow> nat \<Rightarrow> string \<Rightarrow> db \<Rightarrow> db" where
  "add_reminder e event_id delay_minutes reminder_type d =
     (case plus_minutes (now e) delay_minutes of
        None \<Rightarrow> d
      | Some due \<Rightarrow>
          if fail_add_reminder e then d
          else d\<lparr>reminders := reminders d @
                     [\<lparr>rm_reminder_id = seq_reminders d + 1, rm_event_id = event_id,
                       rm_reminder_time = strftime due, rm_reminder_type = reminder_type\<rparr>],
                  seq_reminders := seq_reminders d + 1\<rparr>)"

text \<open>
  \<open>SELECT event_id, reminder_id FROM reminders WHERE reminder_time <= ?\<close> with the
  rendered current time, then \<open>fetchone()\<close>: the first due row in rowid order.
\<close>

definition get_due_reminder :: "env \<Rightarrow> db \<Rightarrow> int option \<times> int option" where
  "get_due_reminder e d =
     (if fail_get_due_reminder e then (None, None)
      else case find (\<lambda>r. rm_reminder_time r \<le> strftime (now e)) (reminders d) of
             None \<Rightarrow> (None, None)
           | Some r \<Rightarrow> (Some (rm_event_id r), Some (rm_reminder_id r)))"

text \<open>\<open>DELETE FROM reminders WHERE reminder_id=?\<close>; a NULL parameter matches no row.\<close>

definition remove_reminder :: "env \<Rightarrow> int option \<Rightarrow> db \<Rightarrow> db" where
  "remove_reminder e reminder_id d =
     (if fail_remove_reminder e then d
      else d\<lparr>reminders := filter (\<lambda>r. Some (rm_reminder_id r) \<noteq> reminder_id) (reminders d)\<rparr>)"

definition update_user_control_decision :: "env \<Rightarrow> string \<Rightarrow> db \<Rightarrow> db" where
  "update_user_control_decision e state d =
     (if fail_update_user_control_decision e then d
      else d\<lparr>user_control := user_control d @
                 [\<lparr>uc_id = seq_user_control d + 1, uc_timestamp = strftime (now e),
                   uc_user_input = state\<rparr>],
              seq_user_control := seq_user_control d + 1\<rparr>)"

section \<open>The alert callback\<close>

datatype py_error = IndexError

text \<open>
  \<open>callback_context.triggered[0]["prop_id"].split(".")[0]\<close>, with \<open>triggered\<close> given as
  the list of its \<open>prop_id\<close> strings: indexing an empty list raises, and the first piece of
  the split is the text before the first dot.
\<close>

definition triggered_id_of :: "string list \<Rightarrow> py_error + string" where
  "triggered_id_of triggered =
     (case triggered of
        [] \<Rightarrow> Inl IndexError
      | p # _ \<Rightarrow> Inr (takeWhile (\<lambda>c. c \<noteq> CHR ''.'') p))"

text \<open>Python's truth value of an id that may be \<open>None\<close>: \<open>None\<close> and \<open>0\<close> are false.\<close>

definition truthy :: "int option \<Rightarrow> bool" where
  "truthy x = (case x of None \<Rightarrow> False | Some i \<Rightarrow> i \<noteq> 0)"

definition str_int :: "int \<Rightarrow> string" where
  "str_int i = (if i < 0 then ''-'' @ dec (nat (- i)) else dec (nat i))"

text \<open>The four \<open>State\<close> arguments (the persisted stores of the page).\<close>

record ui_state =
  alert_shown :: bool
  modal_open_state :: bool
  disclaimer_open_state :: bool
  caution_open_state :: bool

text \<open>The local variables of the callback.\<close>

record locals =
  modal_open :: bool
  disclaimer_open :: bool
  caution_open :: bool
  status_message :: string
  updated_alert_shown :: bool

text \<open>The eight \<open>Output\<close> values, in the order of the decorator.\<close>

record outputs =
  out_modal_is_open :: bool
  out_on_alert_shown :: bool
  out_relay_status :: string
  out_disclaimer_is_open :: bool
  out_caution_is_open :: bool
  out_modal_open_state :: bool
  out_disclaimer_modal_open :: bool
  out_caution_modal_open :: bool

definition start_locals :: "ui_state \<Rightarrow> locals" where
  "start_locals st =
     \<lparr>modal_open = modal_open_state st, disclaimer_open = disclaimer_open_state st,
      caution_open = caution_open_state st, status_message = ''Monitoring filter state...'',
      updated_alert_shown = alert_shown st\<rparr>"

text \<open>
  The first \<open>if\<close>/\<open>elif\<close> of the body: the due reminder, else the interval tick on an
  unprocessed ON event.
\<close>

definition reminder_phase ::
  "env \<Rightarrow> string \<Rightarrow> int option \<Rightarrow> string \<Rightarrow> locals \<times> db \<Rightarrow> locals \<times> db" where
  "reminder_phase e triggered_id last_event_id last_state ld =
     (let (l, d) = ld; (due_reminder_event_id, reminder_id) = get_due_reminder e d in
      if truthy due_reminder_event_id \<and> due_reminder_event_id = last_event_id
           \<and> last_state = ''ON''
      then (l\<lparr>modal_open := True, disclaimer_open := False, caution_open := False,
               updated_alert_shown := True,
               status_message := ''Reminder due. Showing modal.''\<rparr>,
            remove_reminder e reminder_id d)
      else if triggered_id = ''interval-component'' \<and> last_state = ''ON'' \<and> truthy last_event_id
      then (case last_event_id of
              None \<Rightarrow> (l, d)
            | Some ev \<Rightarrow>
                if \<not> is_event_processed e d ev
                then (l\<lparr>modal_open := True, disclaimer_open := False, caution_open := False,
                         updated_alert_shown := True,
                         status_message := ''Filter ON detected. Event '' @ str_int ev @
                                             ''. User attention required.''\<rparr>,
                      record_event_as_processed e ev ''SHOWING_MODAL'' d)
                else (l, d))
      else (l, d))"

text \<open>\<open>if last_event_id: record_event_as_processed(last_event_id, action)\<close>.\<close>

definition record_if_event :: "env \<Rightarrow> int option \<Rightarrow> string \<Rightarrow> db \<Rightarrow> db" where
  "record_if_event e last_event_id action d =
     (case last_event_id of
        None \<Rightarrow> d
      | Some ev \<Rightarrow> if ev \<noteq> 0 then record_event_as_processed e ev action d else d)"

definition set_dialogs :: "bool \<Rightarrow> bool \<Rightarrow> bool \<Rightarrow> string \<Rightarrow> locals \<Rightarrow> locals" where
  "set_dialogs m dc c msg l =
     l\<lparr>modal_open := m, disclaimer_open := dc, caution_open := c, status_message := msg\<rparr>"

text \<open>The second \<open>if\<close>/\<open>elif\<close> chain: the operator's clicks.\<close>

definition click_phase ::
  "env \<Rightarrow> string \<Rightarrow> int option \<Rightarrow> locals \<times> db \<Rightarrow> locals \<times> db" where
  "click_phase e triggered_id last_event_id ld =
     (let (l, d) = ld in
      if triggered_id = ''enable-fan-filterstate''
      then (set_dialogs False False False ''Fan enabled by user choice.'' l,
            record_if_event e last_event_id ''ON'' (update_user_control_decision e ''ON'' d))
      else if triggered_id = ''keep-fan-off-filterstate''
      then (set_dialogs False True False ''User chose to keep fan off, showing disclaimer.'' l, d)
      else if triggered_id = ''remind-me-filterstate''
      then (set_dialogs False False False ''Reminder set for 20 minutes.'' l,
            (case last_event_id of
               None \<Rightarrow> d
             | Some ev \<Rightarrow>
                 if ev \<noteq> 0
                 then record_event_as_processed e ev ''REMIND_20''
                        (add_reminder e ev 20 ''20 minutes'' d)
                 else d))
      else if triggered_id = ''remind-me-hour-filterstate''
      then (set_dialogs False False False ''Reminder set for 1 hour.'' l,
            (case last_event_id of
               None \<Rightarrow> d
             | Some ev \<Rightarrow>
                 if ev \<noteq> 0
                 then record_event_as_processed e ev ''REMIND_60''
                        (add_reminder e ev 60 ''1 hour'' d)
                 else d))
      else if triggered_id = ''disclaimer-yes''
      then (set_dialogs False False True ''User insisted on keeping fan off, showing caution.'' l,
            record_if_event e last_event_id ''OFF'' (update_user_control_decision e ''OFF'' d))
      else if triggered_id = ''disclaimer-no''
      then (set_dialogs False False False ''User changed mind at disclaimer, fan enabled.'' l,
            record_if_event e last_event_id ''ON'' (update_user_control_decision e ''ON'' d))
      else if triggered_id = ''caution-close''
      then (set_dialogs False False False ''Caution modal closed, user aware fan is off.'' l, d)
      else (l, d))"

definition outputs_of :: "locals \<Rightarrow> outputs" where
  "outputs_of l =
     \<lparr>out_modal_is_open = modal_open l, out_on_alert_shown = updated_alert_shown l,
      out_relay_status = status_message l, out_disclaimer_is_open = disclaimer_open l,
      out_caution_is_open = caution_open l, out_modal_open_state = modal_open l,
      out_disclaimer_modal_open = disclaimer_open l, out_caution_modal_open = caution_open l\<rparr>"

text \<open>The \<open>except Exception\<close> branch: the states as they came in.\<close>

definition unchanged_outputs :: "ui_state \<Rightarrow> outputs" where
  "unchanged_outputs st =
     \<lparr>out_modal_is_open = modal_open_state st, out_on_alert_shown = alert_shown st,
      out_relay_status = ''Error encountered in callback. Check logs.'',
      out_disclaimer_is_open = disclaimer_open_state st,
      out_caution_is_open = caution_open_state st,
      out_modal_open_state = modal_open_state st,
      out_disclaimer_modal_open = disclaimer_open_state st,
      out_caution_modal_open = caution_open_state st\<rparr>"

text \<open>
  The body of the \<open>try\<close>: \<open>Inl\<close> is an exception that leaves it, \<open>Inr\<close> the returned
  tuple, each with the database as the body left it.
\<close>

definition try_body :: "env \<Rightarrow> string list \<Rightarrow> ui_state \<Rightarrow> db \<Rightarrow> (py_error + outputs) \<times> db" where
  "try_body e triggered st d =
     (case triggered_id_of triggered of
        Inl err \<Rightarrow> (Inl err, d)
      | Inr triggered_id \<Rightarrow>
          (let (last_event_id, last_state) = get_last_filter_state e d;
               (l, d') = click_phase e triggered_id last_event_id
                           (reminder_phase e triggered_id last_event_id last_state
                              (start_locals st, d))
           in (Inr (outputs_of l), d')))"

definition handle_filter_state_event :: "env \<Rightarrow> string list \<Rightarrow> ui_state \<Rightarrow> db \<Rightarrow> outputs \<times> db" where
  "handle_filter_state_event e triggered st d =
     (case try_body e triggered st d of
        (Inl err, d') \<Rightarrow> (unchanged_outputs st, d')
      | (Inr out, d') \<Rightarrow> (out, d'))"

text \<open>The page writes the last four outputs back into the persisted stores.\<close>

definition stored :: "outputs \<Rightarrow> ui_state" where
  "stored out =
     \<lparr>alert_shown = out_on_alert_shown out, modal_open_state = out_modal_open_state out,
      disclaimer_open_state = out_disclaimer_modal_open out,
      caution_open_state = out_caution_modal_open out\<rparr>"

section \<open>Runs of the callback\<close>

text \<open>
  One invocation: what the callback sees of the world, what triggered it, and the rows the
  sensor pipeline has inserted into \<open>filter_state\<close> since the previous invocation (the only
  table with another writer).
\<close>

record invocation =
  inv_env :: env
  inv_triggered :: "string list"
  inv_sensor_rows :: "filter_state_row list"

definition sensor_write :: "filter_state_row list \<Rightarrow> db \<Rightarrow> db" where
  "sensor_write rows d = d\<lparr>filter_state := filter_state d @ rows\<rparr>"

fun run :: "invocation list \<Rightarrow> ui_state \<times> db \<Rightarrow> ui_state \<times> db" where
  "run [] sd = sd"
| "run (i # rest) sd =
     (let (out, d') = handle_filter_state_event (inv_env i) (inv_triggered i) (fst sd)
                        (sensor_write (inv_sensor_rows i) (snd sd))
      in run rest (stored out, d'))"

text \<open>The initial \<open>data=False\<close> of the four stores.\<close>

definition initial_ui :: ui_state where
  "initial_ui = \<lparr>alert_shown = False, modal_open_state = False,
                 disclaimer_open_state = False, caution_open_state = False\<rparr>"

section \<open>Vocabulary of the specification\<close>

definition at_most_one_dialog :: "ui_state \<Rightarrow> bool" where
  "at_most_one_dialog st =
     (\<not> (modal_open_state st \<and> disclaimer_open_state st) \<and>
      \<not> (modal_open_state st \<and> caution_open_state st) \<and>
      \<not> (disclaimer_open_state st \<and> caution_open_state st))"

datatype cstate = IDLE | PROMPTING | DISCLAIMING | CAUTIONING

fun in_state :: "cstate \<Rightarrow> ui_state \<Rightarrow> bool" where
  "in_state IDLE st =
     (\<not> modal_open_state st \<and> \<not> disclaimer_open_state st \<and> \<not> caution_open_state st)"
| "in_state PROMPTING st = modal_open_state st"
| "in_state DISCLAIMING st = disclaimer_open_state st"
| "in_state CAUTIONING st = caution_open_state st"

text \<open>The dialog flags of a returned tuple, as (main modal, disclaimer, caution).\<close>

definition dialogs :: "outputs \<Rightarrow> bool \<times> bool \<times> bool" where
  "dialogs out = (out_modal_is_open out, out_disclaimer_is_open out, out_caution_is_open out)"

definition dialogs_in :: "ui_state \<Rightarrow> bool \<times> bool \<times> bool" where
  "dialogs_in st = (modal_open_state st, disclaimer_open_state st, caution_open_state st)"

text \<open>Every database operation of the invocation succeeds.\<close>

definition store_ok :: "env \<Rightarrow> bool" where
  "store_ok e =
     (\<not> fail_get_last_filter_state e \<and> \<not> fail_get_due_reminder e \<and>
      \<not> fail_is_event_processed e \<and> \<not> fail_record_event_as_processed e \<and>
      \<not> fail_add_reminder e \<and> \<not> fail_remove_reminder e \<and>
      \<not> fail_update_user_control_decision e)"

text \<open>The ledger rows of one event, and whether it has any.\<close>

definition rows_for :: "int \<Rightarrow> db \<Rightarrow> processed_events_row list" where
  "rows_for ev d = filter (\<lambda>r. pe_event_id r = ev) (processed_events d)"

definition ledger_has :: "db \<Rightarrow> int \<Rightarrow> bool" where
  "ledger_has d ev = list_ex (\<lambda>r. pe_event_id r = ev) (processed_events d)"

text \<open>The rows the WHERE clause of the due query selects.\<close>

definition due_rows :: "env \<Rightarrow> db \<Rightarrow> reminders_row list" where
  "due_rows e d = filter (\<lambda>r. rm_reminder_time r \<le> strftime (now e)) (reminders d)"

definition is_tick :: "string list \<Rightarrow> bool" where
  "is_tick triggered = (triggered_id_of triggered = Inr ''interval-component'')"

text \<open>The two ledger tables with one row appended by this invocation.\<close>

definition with_decision :: "env \<Rightarrow> db \<Rightarrow> string \<Rightarrow> user_control_row list" where
  "with_decision e d state =
     user_control d @ [\<lparr>uc_id = seq_user_control d + 1, uc_timestamp = strftime (now e),
                        uc_user_input = state\<rparr>]"

definition with_action :: "env \<Rightarrow> db \<Rightarrow> int \<Rightarrow> string \<Rightarrow> processed_events_row list" where
  "with_action e d ev action =
     processed_events d @ [\<lparr>pe_processed_id = seq_processed_events d + 1, pe_event_id = ev,
                            pe_action = action, pe_processed_timestamp = strftime (now e)\<rparr>]"

text \<open>
  What a deferral leaves behind: every dialog closed, one new reminder at the end of the
  queue next to reminders that were there before, one new ledger row, no new decision.
\<close>

definition deferral_done ::
  "env \<Rightarrow> db \<Rightarrow> int \<Rightarrow> string \<Rightarrow> string \<Rightarrow> string \<Rightarrow> outputs \<Rightarrow> db \<Rightarrow> bool" where
  "deferral_done e d ev due_time label action out d' =
     (dialogs out = (False, False, False) \<and>
      reminders d' \<noteq> [] \<and>
      last (reminders d') =
        \<lparr>rm_reminder_id = seq_reminders d + 1, rm_event_id = ev, rm_reminder_time = due_time,
         rm_reminder_type = label\<rparr> \<and>
      list_all (\<lambda>r. r \<in> set (reminders d)) (butlast (reminders d')) \<and>
      processed_events d' = with_action e d ev action \<and>
      user_control d' = user_control d)"

text \<open>The invocation changes neither the dialogs nor the database.\<close>

definition quiet :: "env \<Rightarrow> string list \<Rightarrow> ui_state \<Rightarrow> db \<Rightarrow> bool" where
  "quiet e triggered st d =
     (dialogs (fst (handle_filter_state_event e triggered st d)) = dialogs_in st \<and>
      snd (handle_filter_state_event e triggered st d) = d)"

section \<open>Sample data\<close>

definition sample_time :: datetime where
  "sample_time = \<lparr>year = 2024, month = 2, day = 28, hour = 23, minute = 50, second = 7,
                  microsecond = 500000\<rparr>"

definition sample_due_time :: datetime where
  "sample_due_time = \<lparr>year = 2024, month = 2, day = 28, hour = 23, minute = 40, second = 0,
                      microsecond = 0\<rparr>"

definition sample_env :: env where
  "sample_env = \<lparr>now = sample_time, fail_get_last_filter_state = False,
                 fail_get_due_reminder = False, fail_is_event_processed = False,
                 fail_record_event_as_processed = False, fail_add_reminder = False,
                 fail_remove_reminder = False, fail_update_user_control_decision = False\<rparr>"

text \<open>Event 5 is ON and nothing has been recorded yet.\<close>

definition sample_db :: db where
  "sample_db = \<lparr>filter_state = [\<lparr>fs_id = 5, fs_timestamp = ''2024-02-28 23:49:58'',
                                  fs_filter_state = ''ON''\<rparr>],
                user_control = [], processed_events = [], reminders = [],
                seq_user_control = 0, seq_processed_events = 0, seq_reminders = 0\<rparr>"

text \<open>
  Event 5 is still ON; it was shown and deferred, and its reminder came due ten minutes
  before \<open>sample_time\<close>.
\<close>

definition sample_db_due :: db where
  "sample_db_due = \<lparr>filter_state = [\<lparr>fs_id = 5, fs_timestamp = ''2024-02-28 23:19:50'',
                                      fs_filter_state = ''ON''\<rparr>],
                    user_control = [],
                    processed_events =
                      [\<lparr>pe_processed_id = 1, pe_event_id = 5, pe_action = ''SHOWING_MODAL'',
                        pe_processed_timestamp = ''2024-02-28 23:19:55''\<rparr>,
                       \<lparr>pe_processed_id = 2, pe_event_id = 5, pe_action = ''REMIND_20'',
                        pe_processed_timestamp = ''2024-02-28 23:20:00''\<rparr>],
                    reminders =
                      [\<lparr>rm_reminder_id = 1, rm_event_id = 5,
                        rm_reminder_time = ''2024-02-28 23:40:00'',
                        rm_reminder_type = ''20 minutes''\<rparr>],
                    seq_user_control = 0, seq_processed_events = 2, seq_reminders = 1\<rparr>"

text \<open>
  Event 5 was shown and deferred; the condition then cleared (event 6, OFF) before the
  reminder of event 5 came due.
\<close>

definition sample_db_cleared :: db where
  "sample_db_cleared = \<lparr>filter_state = [\<lparr>fs_id = 5, fs_timestamp = ''2024-02-28 23:19:50'',
                                          fs_filter_state = ''ON''\<rparr>,
                                        \<lparr>fs_id = 6, fs_timestamp = ''2024-02-28 23:31:10'',
                                          fs_filter_state = ''OFF''\<rparr>],
                        user_control = [],
                        processed_events =
                          [\<lparr>pe_processed_id = 1, pe_event_id = 5, pe_action = ''SHOWING_MODAL'',
                            pe_processed_timestamp = ''2024-02-28 23:19:55''\<rparr>,
                           \<lparr>pe_processed_id = 2, pe_event_id = 5, pe_action = ''REMIND_20'',
                            pe_processed_timestamp = ''2024-02-28 23:20:00''\<rparr>],
                        reminders =
                          [\<lparr>rm_reminder_id = 1, rm_event_id = 5,
                            rm_reminder_time = ''2024-02-28 23:40:00'',
                            rm_reminder_type = ''20 minutes''\<rparr>],
                        seq_user_control = 0, seq_processed_events = 2, seq_reminders = 1\<rparr>"

text \<open>
  Events 5 and 7 were each shown and deferred; event 5 cleared (event 6, OFF) and its
  reminder was never consumed. Event 7 is the latest and ON, and both reminders are due at
  \<open>sample_time\<close>: the reminder of event 7 sits behind the one of event 5.
\<close>

definition sample_db_hidden :: db where
  "sample_db_hidden = \<lparr>filter_state = [\<lparr>fs_id = 5, fs_timestamp = ''2024-02-28 23:19:50'',
                                         fs_filter_state = ''ON''\<rparr>,
                                       \<lparr>fs_id = 6, fs_timestamp = ''2024-02-28 23:22:10'',
                                         fs_filter_state = ''OFF''\<rparr>,
                                       \<lparr>fs_id = 7, fs_timestamp = ''2024-02-28 23:24:50'',
                                         fs_filter_state = ''ON''\<rparr>],
                       user_control = [],
                       processed_events =
                         [\<lparr>pe_processed_id = 1, pe_event_id = 5, pe_action = ''SHOWING_MODAL'',
                           pe_processed_timestamp = ''2024-02-28 23:19:55''\<rparr>,
                          \<lparr>pe_processed_id = 2, pe_event_id = 5, pe_action = ''REMIND_20'',
                           pe_processed_timestamp = ''2024-02-28 23:20:00''\<rparr>,
                          \<lparr>pe_processed_id = 3, pe_event_id = 7, pe_action = ''SHOWING_MODAL'',
                           pe_processed_timestamp = ''2024-02-28 23:24:55''\<rparr>,
                          \<lparr>pe_processed_id = 4, pe_event_id = 7, pe_action = ''REMIND_20'',
                           pe_processed_timestamp = ''2024-02-28 23:25:00''\<rparr>],
                       reminders =
                         [\<lparr>rm_reminder_id = 1, rm_event_id = 5,
                           rm_reminder_time = ''2024-02-28 23:40:00'',
                           rm_reminder_type = ''20 minutes''\<rparr>,
                          \<lparr>rm_reminder_id = 2, rm_event_id = 7,
                           rm_reminder_time = ''2024-02-28 23:45:00'',
                           rm_reminder_type = ''20 minutes''\<rparr>],
                       seq_user_control = 0, seq_processed_events = 4, seq_reminders = 2\<rparr>"

text \<open>Event 5 is still ON; it was shown and the operator approved the fan.\<close>

definition sample_db_handled :: db where
  "sample_db_handled = \<lparr>filter_state = [\<lparr>fs_id = 5, fs_timestamp = ''2024-02-28 23:19:50'',
                                          fs_filter_state = ''ON''\<rparr>],
                        user_control =
                          [\<lparr>uc_id = 1, uc_timestamp = ''2024-02-28 23:20:00'',
                            uc_user_input = ''ON''\<rparr>],
                        processed_events =
                          [\<lparr>pe_processed_id = 1, pe_event_id = 5, pe_action = ''SHOWING_MODAL'',
                            pe_processed_timestamp = ''2024-02-28 23:19:55''\<rparr>,
                           \<lparr>pe_processed_id = 2, pe_event_id = 5, pe_action = ''ON'',
                            pe_processed_timestamp = ''2024-02-28 23:20:00''\<rparr>],
                        reminders = [],
                        seq_user_control = 1, seq_processed_events = 2, seq_reminders = 0\<rparr>"

text \<open>The same clock with the processed-check read failing, and with every read failing.\<close>

definition sample_env_check_fails :: env where
  "sample_env_check_fails = sample_env\<lparr>fail_is_event_processed := True\<rparr>"

definition sample_env_outage :: env where
  "sample_env_outage = sample_env\<lparr>fail_get_last_filter_state := True,
                                   fail_get_due_reminder := True,
                                   fail_is_event_processed := True\<rparr>"

text \<open>The same invocation with the condition read and the due query succeeding.\<close>

definition with_reads_ok :: "env \<Rightarrow> env" where
  "with_reads_ok e = e\<lparr>fail_get_last_filter_state := False, fail_get_due_reminder := False\<rparr>"

definition tick :: "string list" where
  "tick = [''interval-component.n_intervals'']"

lemmas callback_defs = handle_filter_state_event_def try_body_def reminder_phase_def
  click_phase_def start_locals_def outputs_of_def unchanged_outputs_def stored_def
  set_dialogs_def triggered_id_of_def

section \<open>Rendered timestamps and their order\<close>

lemma digit_char_eval:
  "digit_char 0 = CHR ''0''" "digit_char 1 = CHR ''1''" "digit_char 2 = CHR ''2''"
  "digit_char 3 = CHR ''3''" "digit_char 4 = CHR ''4''" "digit_char 5 = CHR ''5''"
  "digit_char 6 = CHR ''6''" "digit_char 7 = CHR ''7''" "digit_char 8 = CHR ''8''"
  "digit_char 9 = CHR ''9''"
  by (simp_all add: digit_char_def char_of_eq_iff)

lemma of_char_digit: "d < 10 \<Longrightarrow> of_char (digit_char d) = 48 + d"
  by (simp add: digit_char_def)

lemma digit_char_less: "a < 10 \<Longrightarrow> b < 10 \<Longrightarrow> (digit_char a < digit_char b) = (a < b)"
  by (simp add: less_char_def of_char_digit)

lemma digit_char_eq: "a < 10 \<Longrightarrow> b < 10 \<Longrightarrow> (digit_char a = digit_char b) = (a = b)"
  by (metis of_char_digit add_left_cancel)

lemma dec_small: "n < 10 \<Longrightarrow> dec n = [digit_char n]"
  by (simp add: dec.simps)

lemma dec_2: "10 \<le> n \<Longrightarrow> n < 100 \<Longrightarrow> dec n = [digit_char (n div 10), digit_char (n mod 10)]"
  by (subst dec.simps) (simp add: dec_small)

lemma zfill_2:
  assumes "n < 100"
  shows "zfill 2 (dec n) = [digit_char (n div 10), digit_char (n mod 10)]"
proof (cases "n < 10")
  case True
  then show ?thesis by (simp add: dec_small zfill_def digit_char_eval)
next
  case False
  with assms show ?thesis by (simp add: dec_2 zfill_def)
qed

lemma base10_less:
  "r1 < 10 \<Longrightarrow> r2 < 10 \<Longrightarrow>
   ((10::nat) * q1 + r1 < 10 * q2 + r2) = (q1 < q2 \<or> q1 = q2 \<and> r1 < r2)"
  by arith

lemma base10_eq:
  "r1 < 10 \<Longrightarrow> r2 < 10 \<Longrightarrow>
   ((10::nat) * q1 + r1 = 10 * q2 + r2) = (q1 = q2 \<and> r1 = r2)"
  by arith

lemma less_by_digits: "((a::nat) < b) = (a div 10 < b div 10 \<or> a div 10 = b div 10 \<and> a mod 10 < b mod 10)"
  using base10_less [of "a mod 10" "b mod 10" "a div 10" "b div 10"] by simp

lemma eq_by_digits: "((a::nat) = b) = (a div 10 = b div 10 \<and> a mod 10 = b mod 10)"
  using base10_eq [of "a mod 10" "b mod 10" "a div 10" "b div 10"] by simp

lemma fixw_less:
  "a < 10 ^ k \<Longrightarrow> b < 10 ^ k \<Longrightarrow>
   (fixw k a @ xs < fixw k b @ ys) = (a < b \<or> a = b \<and> xs < ys)"
proof (induction k arbitrary: a b xs ys)
  case 0
  then show ?case by simp
next
  case (Suc k)
  have q: "a div 10 < 10 ^ k" "b div 10 < 10 ^ k"
    using Suc.prems by (simp_all add: less_mult_imp_div_less mult.commute)
  have "(fixw (Suc k) a @ xs < fixw (Suc k) b @ ys) =
        (a div 10 < b div 10 \<or> a div 10 = b div 10 \<and>
           (digit_char (a mod 10) # xs < digit_char (b mod 10) # ys))"
    using Suc.IH [OF q] by simp
  also have "\<dots> = (a div 10 < b div 10 \<or> a div 10 = b div 10 \<and>
           (a mod 10 < b mod 10 \<or> a mod 10 = b mod 10 \<and> xs < ys))"
    by (simp add: digit_char_less digit_char_eq)
  also have "\<dots> = (a < b \<or> a = b \<and> xs < ys)"
    using less_by_digits [of a b] eq_by_digits [of a b] by blast
  finally show ?case .
qed

lemma fixw_eq:
  "a < 10 ^ k \<Longrightarrow> b < 10 ^ k \<Longrightarrow>
   (fixw k a @ xs = fixw k b @ ys) = (a = b \<and> xs = ys)"
proof (induction k arbitrary: a b xs ys)
  case 0
  then show ?case by simp
next
  case (Suc k)
  have q: "a div 10 < 10 ^ k" "b div 10 < 10 ^ k"
    using Suc.prems by (simp_all add: less_mult_imp_div_less mult.commute)
  have "(fixw (Suc k) a @ xs = fixw (Suc k) b @ ys) =
        (a div 10 = b div 10 \<and> digit_char (a mod 10) # xs = digit_char (b mod 10) # ys)"
    using Suc.IH [OF q] by simp
  also have "\<dots> = (a div 10 = b div 10 \<and> a mod 10 = b mod 10 \<and> xs = ys)"
    by (simp add: digit_char_eq)
  also have "\<dots> = (a = b \<and> xs = ys)"
    using eq_by_digits [of a b] by blast
  finally show ?case .
qed

lemma div10_ge: "10 * k \<le> n \<Longrightarrow> k \<le> n div (10::nat)"
  by arith

lemma div10_less: "n < 10 * k \<Longrightarrow> n div (10::nat) < k"
  by arith

lemma zfill_fixw:
  assumes "n < 100" shows "zfill 2 (dec n) = fixw 2 n"
proof -
  have "n div 10 < 10" using assms by arith
  then show ?thesis using zfill_2 [OF assms] by (simp add: numeral_2_eq_2)
qed

lemma dec_fixw:
  assumes lo: "1000 \<le> n" and hi: "n < 10000"
  shows "dec n = fixw 4 n"
proof -
  have l1: "100 \<le> n div 10" using lo by (simp add: div10_ge)
  then have l2: "10 \<le> n div 10 div 10" by (simp add: div10_ge)
  have u1: "n div 10 < 1000" using hi by (simp add: div10_less)
  then have u2: "n div 10 div 10 < 100" by (simp add: div10_less)
  then have u3: "n div 10 div 10 div 10 < 10" by (simp add: div10_less)
  have a: "\<not> n < 10" "\<not> n div 10 < 10" "\<not> n div 10 div 10 < 10" "n div 10 div 10 div 10 < 10"
    using lo l1 l2 u3 by simp_all
  have d: "dec n = [digit_char (n div 10 div 10 div 10), digit_char (n div 10 div 10 mod 10),
                 digit_char (n div 10 mod 10), digit_char (n mod 10)]"
    using a by (simp add: dec.simps [of n] dec.simps [of "n div 10"] dec.simps [of "n div 10 div 10"]
                  dec.simps [of "n div 10 div 10 div 10"])
  have f: "fixw 4 n = [digit_char (n div 10 div 10 div 10 mod 10), digit_char (n div 10 div 10 mod 10),
                 digit_char (n div 10 mod 10), digit_char (n mod 10)]"
  proof -
    have four: "(4::nat) = Suc (Suc (Suc (Suc 0)))" by simp
    show ?thesis unfolding four by simp
  qed
  have m: "n div 10 div 10 div 10 mod 10 = n div 10 div 10 div 10"
    using u3 by (rule mod_less)
  show ?thesis by (simp only: d f m)
qed

lemma valid_bounds:
  assumes v: "valid_datetime t"
  shows "year t < 10 ^ 4" "month t < 10 ^ 2" "day t < 10 ^ 2" "hour t < 10 ^ 2"
    "minute t < 10 ^ 2" "second t < 10 ^ 2"
proof -
  have dm: "days_in_month (year t) (month t) \<le> 31" by (simp add: days_in_month_def)
  show "year t < 10 ^ 4" "month t < 10 ^ 2" "day t < 10 ^ 2" "hour t < 10 ^ 2"
    "minute t < 10 ^ 2" "second t < 10 ^ 2"
    using v dm by (auto simp: valid_datetime_def)
qed

lemma strftime_fields:
  assumes v: "valid_datetime t" and y: "1000 \<le> year t"
  shows "strftime t = fixw 4 (year t) @ CHR ''-'' # fixw 2 (month t) @ CHR ''-'' #
           fixw 2 (day t) @ CHR '' '' # fixw 2 (hour t) @ CHR '':'' # fixw 2 (minute t) @
           CHR '':'' # fixw 2 (second t) @ []"
proof -
  have b: "year t < 10000" "month t < 100" "day t < 100" "hour t < 100" "minute t < 100"
    "second t < 100"
    using valid_bounds [OF v] by simp_all
  show ?thesis
    by (simp add: strftime_def dec_fixw [OF y b(1)] zfill_fixw [OF b(2)] zfill_fixw [OF b(3)]
          zfill_fixw [OF b(4)] zfill_fixw [OF b(5)] zfill_fixw [OF b(6)])
qed

lemma fixw_less_nil: "a < 10 ^ k \<Longrightarrow> b < 10 ^ k \<Longrightarrow> (fixw k a < fixw k b) = (a < b)"
  using fixw_less [of a k b "[]" "[]"] by simp

lemma fixw_eq_nil: "a < 10 ^ k \<Longrightarrow> b < 10 ^ k \<Longrightarrow> (fixw k a = fixw k b) = (a = b)"
  using fixw_eq [of a k b "[]" "[]"] by simp

lemma strftime_less:
  assumes v1: "valid_datetime t1" and y1: "1000 \<le> year t1"
    and v2: "valid_datetime t2" and y2: "1000 \<le> year t2"
  shows "(strftime t1 < strftime t2) = (key6 t1 < key6 t2)"
proof -
  note b1 = valid_bounds [OF v1]
  note b2 = valid_bounds [OF v2]
  show ?thesis
    by (simp add: strftime_fields [OF v1 y1] strftime_fields [OF v2 y2] key6_def
          fixw_less [OF b1(1) b2(1)] fixw_less [OF b1(2) b2(2)] fixw_less [OF b1(3) b2(3)]
          fixw_less [OF b1(4) b2(4)] fixw_less [OF b1(5) b2(5)] fixw_less_nil [OF b1(6) b2(6)])
qed

lemma strftime_eq:
  assumes v1: "valid_datetime t1" and y1: "1000 \<le> year t1"
    and v2: "valid_datetime t2" and y2: "1000 \<le> year t2"
  shows "(strftime t1 = strftime t2) = (key6 t1 = key6 t2)"
proof -
  note b1 = valid_bounds [OF v1]
  note b2 = valid_bounds [OF v2]
  show ?thesis
    by (simp add: strftime_fields [OF v1 y1] strftime_fields [OF v2 y2] key6_def
          fixw_eq [OF b1(1) b2(1)] fixw_eq [OF b1(2) b2(2)] fixw_eq [OF b1(3) b2(3)]
          fixw_eq [OF b1(4) b2(4)] fixw_eq [OF b1(5) b2(5)] fixw_eq_nil [OF b1(6) b2(6)])
qed

lemma key_trunc: "dt_key (trunc_seconds t) = key6 t @ [0]"
  by (simp add: dt_key_def trunc_seconds_def key6_def)

lemma snoc_same_less:
  "length xs = length ys \<Longrightarrow> (xs @ [z] < ys @ [z]) = (xs < (ys :: nat list))"
  by (induction xs ys rule: list_induct2) simp_all

lemma snoc_same_le:
  "length xs = length ys \<Longrightarrow> (xs @ [z] \<le> ys @ [z]) = (xs \<le> (ys :: nat list))"
  by (simp add: list_le_def snoc_same_less)

lemma strftime_le:
  assumes v1: "valid_datetime t1" and y1: "1000 \<le> year t1"
    and v2: "valid_datetime t2" and y2: "1000 \<le> year t2"
  shows "(strftime t1 \<le> strftime t2) = dt_le (trunc_seconds t1) (trunc_seconds t2)"
proof -
  have "(strftime t1 \<le> strftime t2) = (key6 t1 \<le> key6 t2)"
    unfolding list_le_def
    using strftime_less [OF v1 y1 v2 y2] strftime_eq [OF v1 y1 v2 y2] by simp
  also have "\<dots> = (key6 t1 @ [0] \<le> key6 t2 @ [0])"
    by (rule snoc_same_le [symmetric]) (simp add: key6_def)
  finally show ?thesis
    by (simp add: dt_le_def key_trunc)
qed

lemma strftime_sample_time: "strftime sample_time = ''2024-02-28 23:50:07''"
  by (simp add: strftime_def sample_time_def dec.simps zfill_def digit_char_eval)

lemma strftime_sample_due_time: "strftime sample_due_time = ''2024-02-28 23:40:00''"
  by (simp add: strftime_def sample_due_time_def dec.simps zfill_def digit_char_eval)

lemma valid_sample_time: "valid_datetime sample_time \<and> 1000 \<le> year sample_time"
  by (simp add: valid_datetime_def sample_time_def days_in_month_def is_leap_def)

lemma valid_sample_due_time: "valid_datetime sample_due_time \<and> 1000 \<le> year sample_due_time"
  by (simp add: valid_datetime_def sample_due_time_def days_in_month_def is_leap_def)

text \<open>
  Claim C9, as it holds. For two timestamps with four-digit years, the rendered strings
  compare lexicographically as the timestamps compare once both are cut to whole seconds
  (the rendering drops the microsecond). Consequently the WHERE clause of the due query
  selects exactly the reminders whose stored due time, to the second, is at or before the
  current time, to the second.
\<close>

theorem strings_order_timestamps_to_the_second:
  assumes v1: "valid_datetime t1" and y1: "1000 \<le> year t1"
    and v2: "valid_datetime t2" and y2: "1000 \<le> year t2"
  shows "((strftime t1 \<le> strftime t2) = dt_le (trunc_seconds t1) (trunc_seconds t2)) \<and>
         (now e = t2 \<and> rm_reminder_time r = strftime t1 \<longrightarrow>
            (r \<in> set (due_rows e d)) =
            (r \<in> set (reminders d) \<and> dt_le (trunc_seconds t1) (trunc_seconds t2)))"
  using strftime_le [OF v1 y1 v2 y2] by (auto simp add: due_rows_def)

theorem strings_order_timestamps_to_the_second_witness:
  "strftime sample_due_time \<le> strftime sample_time \<and>
   dt_le (trunc_seconds sample_due_time) (trunc_seconds sample_time) \<and>
   \<lparr>rm_reminder_id = 1, rm_event_id = 5, rm_reminder_time = ''2024-02-28 23:40:00'',
     rm_reminder_type = ''20 minutes''\<rparr> \<in> set (due_rows sample_env sample_db_due)"
proof -
  have v1: "valid_datetime sample_due_time" and y1: "1000 \<le> year sample_due_time"
    using valid_sample_due_time by simp_all
  have v2: "valid_datetime sample_time" and y2: "1000 \<le> year sample_time"
    using valid_sample_time by simp_all
  have le: "strftime sample_due_time \<le> strftime sample_time"
    by (simp add: strftime_sample_time strftime_sample_due_time)
  have n: "now sample_env = sample_time"
    by (simp add: sample_env_def)
  have m: "\<lparr>rm_reminder_id = 1, rm_event_id = 5, rm_reminder_time = ''2024-02-28 23:40:00'',
     rm_reminder_type = ''20 minutes''\<rparr> \<in> set (reminders sample_db_due)"
    by (simp add: sample_db_due_def)
  show ?thesis
    using strings_order_timestamps_to_the_second [OF v1 y1 v2 y2, of sample_env
            "\<lparr>rm_reminder_id = 1, rm_event_id = 5, rm_reminder_time = ''2024-02-28 23:40:00'',
              rm_reminder_type = ''20 minutes''\<rparr>" sample_db_due]
          le n m
    by (simp add: strftime_sample_due_time)
qed

text \<open>
  Claim C9 as stated fails on timestamps that differ only below the second: the later one
  renders to the same string as the earlier one, so the strings are in order while the
  timestamps are not.
\<close>

theorem timestamps_in_one_second_counterexample:
  "valid_datetime sample_time \<and> 1000 \<le> year sample_time \<and>
   valid_datetime (sample_time\<lparr>microsecond := 200000\<rparr>) \<and>
   1000 \<le> year (sample_time\<lparr>microsecond := 200000\<rparr>) \<and>
   strftime sample_time \<le> strftime (sample_time\<lparr>microsecond := 200000\<rparr>) \<and>
   \<not> dt_le sample_time (sample_time\<lparr>microsecond := 200000\<rparr>)"
proof -
  have s: "strftime (sample_time\<lparr>microsecond := 200000\<rparr>) = strftime sample_time"
    by (simp add: strftime_def)
  have v: "valid_datetime (sample_time\<lparr>microsecond := 200000\<rparr>)"
    by (simp add: valid_datetime_def sample_time_def days_in_month_def is_leap_def)
  have n: "\<not> dt_le sample_time (sample_time\<lparr>microsecond := 200000\<rparr>)"
    by (simp add: dt_le_def dt_key_def sample_time_def)
  show ?thesis
    using valid_sample_time s v n by simp
qed

section \<open>Structure of the callback\<close>

lemma handler_as_phases:
  "triggered_id_of tr = Inr tid \<Longrightarrow> get_last_filter_state e d = (le, ls) \<Longrightarrow>
   handle_filter_state_event e tr st d =
     (let (l, d') = click_phase e tid le (reminder_phase e tid le ls (start_locals st, d))
      in (outputs_of l, d'))"
  by (simp add: handle_filter_state_event_def try_body_def split: prod.splits)

lemma click_phase_tick:
  "click_phase e ''interval-component'' le ld = ld"
  by (simp add: click_phase_def split: prod.splits)

lemma reminder_phase_due:
  "get_due_reminder e d = (Some ev, Some rid) \<Longrightarrow> ev \<noteq> 0 \<Longrightarrow>
   reminder_phase e tid (Some ev) ''ON'' (l, d) =
     (l\<lparr>modal_open := True, disclaimer_open := False, caution_open := False,
        updated_alert_shown := True, status_message := ''Reminder due. Showing modal.''\<rparr>,
      remove_reminder e (Some rid) d)"
  by (simp add: reminder_phase_def truthy_def)

lemma remove_reminder_gone:
  "\<not> fail_remove_reminder e \<Longrightarrow>
   \<not> list_ex (\<lambda>r. rm_reminder_id r = rid) (reminders (remove_reminder e (Some rid) d))"
  by (simp add: remove_reminder_def list_ex_iff)

lemma tick_is_tick: "is_tick tick"
  by (simp add: is_tick_def tick_def triggered_id_of_def)

section \<open>At most one dialog\<close>

lemma step_keeps_one_dialog:
  "at_most_one_dialog st \<Longrightarrow>
   at_most_one_dialog (stored (fst (handle_filter_state_event e tr st d)))"
  by (auto simp: callback_defs at_most_one_dialog_def Let_def
           split: list.splits prod.splits option.splits sum.splits if_splits)

lemma run_keeps_one_dialog:
  "at_most_one_dialog (fst sd) \<Longrightarrow> at_most_one_dialog (fst (run invs sd))"
proof (induction invs arbitrary: sd)
  case Nil
  then show ?case by simp
next
  case (Cons i rest)
  obtain out d' where h:
    "handle_filter_state_event (inv_env i) (inv_triggered i) (fst sd)
       (sensor_write (inv_sensor_rows i) (snd sd)) = (out, d')"
    by (cases "handle_filter_state_event (inv_env i) (inv_triggered i) (fst sd)
                 (sensor_write (inv_sensor_rows i) (snd sd))")
  have "at_most_one_dialog (stored out)"
    using step_keeps_one_dialog [OF Cons.prems, of "inv_env i" "inv_triggered i"
            "sensor_write (inv_sensor_rows i) (snd sd)"] h
    by simp
  then have "at_most_one_dialog (fst (run rest (stored out, d')))"
    using Cons.IH [of "(stored out, d')"] by simp
  then show ?case using h by simp
qed

lemma one_dialog_one_state:
  assumes a: "at_most_one_dialog s"
  shows "\<exists>!c. in_state c s"
proof (cases "modal_open_state s")
  case True
  then have "in_state PROMPTING s" by simp
  moreover have "\<And>c. in_state c s \<Longrightarrow> c = PROMPTING"
    using a True by (case_tac c) (auto simp: at_most_one_dialog_def)
  ultimately show ?thesis by blast
next
  case nm: False
  show ?thesis
  proof (cases "disclaimer_open_state s")
    case True
    then have "in_state DISCLAIMING s" by simp
    moreover have "\<And>c. in_state c s \<Longrightarrow> c = DISCLAIMING"
      using a True nm by (case_tac c) (auto simp: at_most_one_dialog_def)
    ultimately show ?thesis by blast
  next
    case nd: False
    show ?thesis
    proof (cases "caution_open_state s")
      case True
      then have "in_state CAUTIONING s" by simp
      moreover have "\<And>c. in_state c s \<Longrightarrow> c = CAUTIONING"
        using True nm nd by (case_tac c) auto
      ultimately show ?thesis by blast
    next
      case False
      then have "in_state IDLE s" using nm nd by simp
      moreover have "\<And>c. in_state c s \<Longrightarrow> c = IDLE"
        using False nm nd by (case_tac c) auto
      ultimately show ?thesis by blast
    qed
  qed
qed

text \<open>
  Claim C7. Start from the initial stores (all flags false) and run any sequence of
  invocations: any triggers, any outcomes of the database operations, any database to begin
  with and any rows written by the sensor pipeline in between. In the state reached, at most
  one of the three dialog flags is set, so exactly one of IDLE, PROMPTING, DISCLAIMING and
  CAUTIONING holds.
\<close>

theorem one_dialog_at_all_reachable_states:
  "at_most_one_dialog (fst (run invs (initial_ui, d))) \<and>
   (\<exists>!c. in_state c (fst (run invs (initial_ui, d))))"
proof -
  have "at_most_one_dialog (fst (run invs (initial_ui, d)))"
    using run_keeps_one_dialog [of "(initial_ui, d)" invs]
    by (simp add: at_most_one_dialog_def initial_ui_def)
  then show ?thesis
    using one_dialog_one_state by blast
qed

theorem one_dialog_at_all_reachable_states_witness:
  "at_most_one_dialog
     (fst (run [\<lparr>inv_env = sample_env, inv_triggered = tick, inv_sensor_rows = []\<rparr>,
                \<lparr>inv_env = sample_env, inv_triggered = [''keep-fan-off-filterstate.n_clicks''],
                 inv_sensor_rows = []\<rparr>]
             (initial_ui, sample_db)))"
  using one_dialog_at_all_reachable_states
          [of "[\<lparr>inv_env = sample_env, inv_triggered = tick, inv_sensor_rows = []\<rparr>,
                \<lparr>inv_env = sample_env, inv_triggered = [''keep-fan-off-filterstate.n_clicks''],
                 inv_sensor_rows = []\<rparr>]" sample_db]
  by simp

section \<open>The exception path\<close>

text \<open>
  Claim C8. When an exception leaves the body of the \<open>try\<close>, the callback returns the
  main-modal, alert-shown, disclaimer and caution values it was passed, so the stores of the
  page keep the prior state.
\<close>

theorem exception_returns_prior_state:
  "fst (try_body e tr st d) = Inl err \<Longrightarrow>
   fst (handle_filter_state_event e tr st d) = unchanged_outputs st \<and>
   stored (fst (handle_filter_state_event e tr st d)) = st \<and>
   dialogs (fst (handle_filter_state_event e tr st d)) = dialogs_in st \<and>
   out_on_alert_shown (fst (handle_filter_state_event e tr st d)) = alert_shown st"
  by (auto simp: handle_filter_state_event_def unchanged_outputs_def stored_def dialogs_def
                 dialogs_in_def split: prod.splits sum.splits)

theorem exception_returns_prior_state_witness:
  "fst (try_body sample_env [] initial_ui sample_db) = Inl IndexError \<and>
   stored (fst (handle_filter_state_event sample_env [] initial_ui sample_db)) = initial_ui"
proof -
  have h: "fst (try_body sample_env [] initial_ui sample_db) = Inl IndexError"
    by (simp add: try_body_def triggered_id_of_def)
  show ?thesis
    using h exception_returns_prior_state [OF h] by blast
qed

section \<open>The due reminder comes first\<close>

text \<open>
  Claim C10, as it holds. The due-reminder test is the first thing the callback does,
  whatever triggered it and whatever dialog is open. When the reminder that the due query
  returns (the first due row) belongs to the latest condition event and that condition is
  ON, the first phase sets the main modal open (the other two dialogs closed) and deletes
  the reminder, and only then the branch of the trigger runs on that result. On a tick
  nothing else runs: the callback returns the main modal open with disclaimer and caution
  closed, whichever of them was open before.
\<close>

theorem due_reminder_checked_on_every_trigger:
  assumes due: "get_due_reminder e d = (Some ev, Some rid)"
    and latest: "get_last_filter_state e d = (Some ev, ''ON'')"
    and nz: "ev \<noteq> 0"
    and trig: "triggered_id_of tr = Inr tid"
  shows "(let ld1 = reminder_phase e tid (Some ev) ''ON'' (start_locals st, d) in
           modal_open (fst ld1) \<and> \<not> disclaimer_open (fst ld1) \<and> \<not> caution_open (fst ld1) \<and>
           snd ld1 = remove_reminder e (Some rid) d \<and>
           (\<not> fail_remove_reminder e \<longrightarrow>
              \<not> list_ex (\<lambda>r. rm_reminder_id r = rid) (reminders (snd ld1))) \<and>
           handle_filter_state_event e tr st d =
             (let (l, d') = click_phase e tid (Some ev) ld1 in (outputs_of l, d')) \<and>
           (is_tick tr \<longrightarrow>
              dialogs (fst (handle_filter_state_event e tr st d)) = (True, False, False) \<and>
              snd (handle_filter_state_event e tr st d) = remove_reminder e (Some rid) d))"
proof -
  let ?ld1 = "reminder_phase e tid (Some ev) ''ON'' (start_locals st, d)"
  have p1: "?ld1 = ((start_locals st)\<lparr>modal_open := True, disclaimer_open := False,
        caution_open := False, updated_alert_shown := True,
        status_message := ''Reminder due. Showing modal.''\<rparr>, remove_reminder e (Some rid) d)"
    using reminder_phase_due [OF due nz] by simp
  have h: "handle_filter_state_event e tr st d =
             (let (l, d') = click_phase e tid (Some ev) ?ld1 in (outputs_of l, d'))"
    using handler_as_phases [OF trig latest] by simp
  have t: "is_tick tr \<longrightarrow>
              dialogs (fst (handle_filter_state_event e tr st d)) = (True, False, False) \<and>
              snd (handle_filter_state_event e tr st d) = remove_reminder e (Some rid) d"
  proof
    assume "is_tick tr"
    then have "tid = ''interval-component''" using trig by (simp add: is_tick_def)
    then show "dialogs (fst (handle_filter_state_event e tr st d)) = (True, False, False) \<and>
              snd (handle_filter_state_event e tr st d) = remove_reminder e (Some rid) d"
      using h p1 by (simp add: click_phase_tick dialogs_def outputs_of_def)
  qed
  show ?thesis
    unfolding Let_def
    using p1 h t remove_reminder_gone [of e rid d] by (simp add: Let_def)
qed

section \<open>The tick\<close>

lemma find_as_filter:
  "find P xs = (case filter P xs of [] \<Rightarrow> None | x # _ \<Rightarrow> Some x)"
  by (induction xs) auto

lemma get_due_reminder_rows:
  "\<not> fail_get_due_reminder e \<Longrightarrow>
   get_due_reminder e d =
     (case due_rows e d of [] \<Rightarrow> (None, None)
      | r # _ \<Rightarrow> (Some (rm_event_id r), Some (rm_reminder_id r)))"
  by (simp add: get_due_reminder_def due_rows_def find_as_filter split: list.splits)

lemma reminder_phase_none_due:
  "get_due_reminder e d = (None, x) \<Longrightarrow>
   reminder_phase e tid le ls (l, d) =
     (if tid = ''interval-component'' \<and> ls = ''ON'' \<and> truthy le
      then (case le of None \<Rightarrow> (l, d)
            | Some ev \<Rightarrow>
                if \<not> is_event_processed e d ev
                then (l\<lparr>modal_open := True, disclaimer_open := False, caution_open := False,
                         updated_alert_shown := True,
                         status_message := ''Filter ON detected. Event '' @ str_int ev @
                                             ''. User attention required.''\<rparr>,
                      record_event_as_processed e ev ''SHOWING_MODAL'' d)
                else (l, d))
      else (l, d))"
  by (simp add: reminder_phase_def truthy_def)

lemma reminder_phase_not_on:
  "ls \<noteq> ''ON'' \<Longrightarrow> reminder_phase e tid le ls (l, d) = (l, d)"
  by (simp add: reminder_phase_def split: prod.splits)

lemma tick_result:
  "is_tick tr \<Longrightarrow> get_last_filter_state e d = (le, ls) \<Longrightarrow>
   handle_filter_state_event e tr st d =
     (let (l, d') = reminder_phase e ''interval-component'' le ls (start_locals st, d)
      in (outputs_of l, d'))"
  using handler_as_phases [of tr "''interval-component''" e d le ls st]
  by (simp add: is_tick_def click_phase_tick)

lemma is_event_processed_ledger:
  "\<not> fail_is_event_processed e \<Longrightarrow> is_event_processed e d ev = ledger_has d ev"
  by (simp add: is_event_processed_def ledger_has_def)

lemma dialogs_start: "in_state IDLE st \<Longrightarrow> dialogs (outputs_of (start_locals st)) = (False, False, False)"
  by (simp add: dialogs_def outputs_of_def start_locals_def)

text \<open>
  Claim C4. A scheduling tick arrives in IDLE, the database operations succeed, and the
  latest condition event is \<open>ev\<close> (an AUTOINCREMENT id, so not 0). If no reminder is due,
  the condition is ON and the ledger has no row for \<open>ev\<close>, the callback appends exactly
  one row (\<open>ev\<close>, SHOWING_MODAL) and returns the main modal open with disclaimer and
  caution closed (PROMPTING). If the condition is OFF, or the ledger already has a row for
  \<open>ev\<close> and no reminder is due, the dialogs stay closed (IDLE) and the database is
  unchanged.
\<close>

theorem tick_prompts_unprocessed_on_event:
  assumes tick: "is_tick tr"
    and ok: "store_ok e"
    and idle: "in_state IDLE st"
    and latest: "get_last_filter_state e d = (Some ev, s)"
    and nz: "ev \<noteq> 0"
  shows "(due_rows e d = [] \<and> s = ''ON'' \<and> \<not> ledger_has d ev \<longrightarrow>
            dialogs (fst (handle_filter_state_event e tr st d)) = (True, False, False) \<and>
            snd (handle_filter_state_event e tr st d) =
              d\<lparr>processed_events := processed_events d @
                    [\<lparr>pe_processed_id = seq_processed_events d + 1, pe_event_id = ev,
                      pe_action = ''SHOWING_MODAL'',
                      pe_processed_timestamp = strftime (now e)\<rparr>],
                 seq_processed_events := seq_processed_events d + 1\<rparr>) \<and>
         (s = ''OFF'' \<or> ledger_has d ev \<and> due_rows e d = [] \<longrightarrow>
            dialogs (fst (handle_filter_state_event e tr st d)) = (False, False, False) \<and>
            snd (handle_filter_state_event e tr st d) = d)"
proof -
  have flags: "\<not> fail_get_due_reminder e" "\<not> fail_is_event_processed e"
    "\<not> fail_record_event_as_processed e"
    using ok by (simp_all add: store_ok_def)
  note h = tick_result [OF tick latest, of st]
  have a: "due_rows e d = [] \<Longrightarrow> s = ''ON'' \<Longrightarrow> \<not> ledger_has d ev \<Longrightarrow>
            dialogs (fst (handle_filter_state_event e tr st d)) = (True, False, False) \<and>
            snd (handle_filter_state_event e tr st d) =
              d\<lparr>processed_events := processed_events d @
                    [\<lparr>pe_processed_id = seq_processed_events d + 1, pe_event_id = ev,
                      pe_action = ''SHOWING_MODAL'',
                      pe_processed_timestamp = strftime (now e)\<rparr>],
                 seq_processed_events := seq_processed_events d + 1\<rparr>"
  proof -
    assume n: "due_rows e d = []" and on: "s = ''ON''" and np: "\<not> ledger_has d ev"
    have g: "get_due_reminder e d = (None, None)"
      using get_due_reminder_rows [OF flags(1), of d] n by simp
    show ?thesis
      using h on np nz flags
      by (simp add: reminder_phase_none_due [OF g] truthy_def is_event_processed_ledger
            record_event_as_processed_def dialogs_def outputs_of_def)
  qed
  have b: "s = ''OFF'' \<Longrightarrow>
            dialogs (fst (handle_filter_state_event e tr st d)) = (False, False, False) \<and>
            snd (handle_filter_state_event e tr st d) = d"
    using h idle by (simp add: reminder_phase_not_on dialogs_start)
  have c: "ledger_has d ev \<Longrightarrow> due_rows e d = [] \<Longrightarrow>
            dialogs (fst (handle_filter_state_event e tr st d)) = (False, False, False) \<and>
            snd (handle_filter_state_event e tr st d) = d"
  proof -
    assume p: "ledger_has d ev" and n: "due_rows e d = []"
    have g: "get_due_reminder e d = (None, None)"
      using get_due_reminder_rows [OF flags(1), of d] n by simp
    show ?thesis
      using h p idle flags
      by (simp add: reminder_phase_none_due [OF g] is_event_processed_ledger dialogs_start)
  qed
  show ?thesis using a b c by blast
qed

section \<open>The tick and the due reminder on the sample data\<close>

lemma sample_env_ok: "store_ok sample_env"
  by (simp add: store_ok_def sample_env_def)

lemma sample_db_latest: "get_last_filter_state sample_env sample_db = (Some 5, ''ON'')"
  by (simp add: get_last_filter_state_def sample_env_def sample_db_def)

lemma sample_db_due_latest: "get_last_filter_state sample_env sample_db_due = (Some 5, ''ON'')"
  by (simp add: get_last_filter_state_def sample_env_def sample_db_due_def)

lemma now_sample_env: "now sample_env = sample_time"
  by (simp add: sample_env_def)

lemma sample_db_none_due: "due_rows sample_env sample_db = []"
  by (simp add: due_rows_def sample_db_def)

lemma sample_db_due_reminder: "get_due_reminder sample_env sample_db_due = (Some 5, Some 1)"
  by (simp add: get_due_reminder_def now_sample_env strftime_sample_time)
     (simp add: sample_env_def sample_db_due_def)

lemma initial_idle: "in_state IDLE initial_ui"
  by (simp add: initial_ui_def)

theorem tick_prompts_unprocessed_on_event_witness:
  "is_tick tick \<and> store_ok sample_env \<and> in_state IDLE initial_ui \<and>
   due_rows sample_env sample_db = [] \<and> \<not> ledger_has sample_db 5 \<and>
   dialogs (fst (handle_filter_state_event sample_env tick initial_ui sample_db)) =
     (True, False, False) \<and>
   map pe_action (processed_events (snd (handle_filter_state_event sample_env tick initial_ui sample_db))) = [''SHOWING_MODAL'']"
proof -
  have nl: "\<not> ledger_has sample_db 5" by (simp add: ledger_has_def sample_db_def)
  have nz: "(5::int) \<noteq> 0" by simp
  have p: "processed_events sample_db = []" by (simp add: sample_db_def)
  show ?thesis
    using tick_prompts_unprocessed_on_event
            [OF tick_is_tick sample_env_ok initial_idle sample_db_latest nz]
          tick_is_tick sample_env_ok initial_idle sample_db_none_due nl p
    by simp
qed

theorem due_reminder_checked_on_every_trigger_witness:
  "get_due_reminder sample_env sample_db_due = (Some 5, Some 1) \<and>
   get_last_filter_state sample_env sample_db_due = (Some 5, ''ON'') \<and>
   is_tick tick \<and>
   dialogs (fst (handle_filter_state_event sample_env tick
                   \<lparr>alert_shown = True, modal_open_state = False,
                     disclaimer_open_state = False, caution_open_state = True\<rparr>
                   sample_db_due)) = (True, False, False) \<and>
   reminders (snd (handle_filter_state_event sample_env tick
                   \<lparr>alert_shown = True, modal_open_state = False,
                     disclaimer_open_state = False, caution_open_state = True\<rparr>
                   sample_db_due)) = []"
proof -
  have nz: "(5::int) \<noteq> 0" by simp
  have t: "triggered_id_of tick = Inr ''interval-component''"
    using tick_is_tick by (simp add: is_tick_def)
  have r: "reminders (remove_reminder sample_env (Some 1) sample_db_due) = []"
    by (simp add: remove_reminder_def sample_env_def sample_db_due_def)
  have c: "dialogs (fst (handle_filter_state_event sample_env tick
                   \<lparr>alert_shown = True, modal_open_state = False,
                     disclaimer_open_state = False, caution_open_state = True\<rparr>
                   sample_db_due)) = (True, False, False) \<and>
           snd (handle_filter_state_event sample_env tick
                   \<lparr>alert_shown = True, modal_open_state = False,
                     disclaimer_open_state = False, caution_open_state = True\<rparr>
                   sample_db_due) = remove_reminder sample_env (Some 1) sample_db_due"
    using due_reminder_checked_on_every_trigger
            [OF sample_db_due_reminder sample_db_due_latest nz t,
             of "\<lparr>alert_shown = True, modal_open_state = False,
                  disclaimer_open_state = False, caution_open_state = True\<rparr>"]
          tick_is_tick
    unfolding Let_def by blast
  show ?thesis
    using c sample_db_due_reminder sample_db_due_latest tick_is_tick r by simp
qed

text \<open>
  Claim C10 as stated fails when the due reminder of the latest ON event is not the row the
  due query returns. Here event 7 is the latest and ON and its reminder is due, but the
  query returns the older due reminder of event 5: the tick opens nothing and deletes
  nothing.
\<close>

theorem due_reminder_behind_another_counterexample:
  "get_last_filter_state sample_env sample_db_hidden = (Some 7, ''ON'') \<and>
   \<lparr>rm_reminder_id = 2, rm_event_id = 7, rm_reminder_time = ''2024-02-28 23:45:00'',
     rm_reminder_type = ''20 minutes''\<rparr> \<in> set (due_rows sample_env sample_db_hidden) \<and>
   get_due_reminder sample_env sample_db_hidden = (Some 5, Some 1) \<and>
   dialogs (fst (handle_filter_state_event sample_env tick initial_ui sample_db_hidden)) =
     (False, False, False) \<and>
   snd (handle_filter_state_event sample_env tick initial_ui sample_db_hidden) =
     sample_db_hidden"
proof -
  have l: "get_last_filter_state sample_env sample_db_hidden = (Some 7, ''ON'')"
    by (simp add: get_last_filter_state_def sample_env_def sample_db_hidden_def)
  have r: "\<lparr>rm_reminder_id = 2, rm_event_id = 7, rm_reminder_time = ''2024-02-28 23:45:00'',
     rm_reminder_type = ''20 minutes''\<rparr> \<in> set (due_rows sample_env sample_db_hidden)"
    by (simp add: due_rows_def now_sample_env strftime_sample_time)
       (simp add: sample_db_hidden_def)
  have g: "get_due_reminder sample_env sample_db_hidden = (Some 5, Some 1)"
    by (simp add: get_due_reminder_def now_sample_env strftime_sample_time)
       (simp add: sample_env_def sample_db_hidden_def)
  have p: "is_event_processed sample_env sample_db_hidden 7"
    by (simp add: is_event_processed_def sample_env_def sample_db_hidden_def)
  have rp: "reminder_phase sample_env ''interval-component'' (Some 7) ''ON''
              (start_locals initial_ui, sample_db_hidden) =
            (start_locals initial_ui, sample_db_hidden)"
    using g p by (simp add: reminder_phase_def truthy_def)
  have h: "handle_filter_state_event sample_env tick initial_ui sample_db_hidden =
           (outputs_of (start_locals initial_ui), sample_db_hidden)"
    using tick_result [OF tick_is_tick l, of initial_ui] rp by simp
  show ?thesis
    using l r g h dialogs_start [OF initial_idle] by simp
qed

section \<open>The operator's actions\<close>

lemma reminder_phase_click_db:
  assumes nt: "tid \<noteq> ''interval-component''"
    and rp: "reminder_phase e tid le ls (l, d) = (l1, d1)"
  shows "processed_events d1 = processed_events d" "user_control d1 = user_control d"
    "seq_processed_events d1 = seq_processed_events d" "seq_user_control d1 = seq_user_control d"
    "seq_reminders d1 = seq_reminders d" "filter_state d1 = filter_state d"
    "set (reminders d1) \<subseteq> set (reminders d)"
  using nt rp
  by (auto simp: reminder_phase_def remove_reminder_def split: prod.splits if_splits)

lemma click_dialogs:
  "dialogs (outputs_of (set_dialogs m dc c msg l)) = (m, dc, c)"
  by (simp add: dialogs_def outputs_of_def set_dialogs_def)

text \<open>
  Claim C5. The database operations succeed and the latest condition event is \<open>ev\<close>
  (the event the prompt is about). Whatever dialog was open: approve appends the decision ON
  and the action (\<open>ev\<close>, ON) and closes every dialog (IDLE); decline writes nothing to the
  ledger and opens the disclaimer (DISCLAIMING); disclaimer-confirm appends the decision OFF
  and the action (\<open>ev\<close>, OFF) and opens the caution (CAUTIONING); disclaimer-cancel
  appends the decision ON and the action (\<open>ev\<close>, ON) and closes every dialog;
  caution-acknowledge writes nothing and closes every dialog.
\<close>

theorem operator_actions_record_and_move:
  assumes ok: "store_ok e"
    and latest: "get_last_filter_state e d = (Some ev, s)"
    and nz: "ev \<noteq> 0"
    and res: "handle_filter_state_event e tr st d = (out, d')"
  shows
   "(triggered_id_of tr = Inr ''enable-fan-filterstate'' \<longrightarrow>
       user_control d' = with_decision e d ''ON'' \<and>
       processed_events d' = with_action e d ev ''ON'' \<and>
       dialogs out = (False, False, False)) \<and>
    (triggered_id_of tr = Inr ''keep-fan-off-filterstate'' \<longrightarrow>
       user_control d' = user_control d \<and> processed_events d' = processed_events d \<and>
       dialogs out = (False, True, False)) \<and>
    (triggered_id_of tr = Inr ''disclaimer-yes'' \<longrightarrow>
       user_control d' = with_decision e d ''OFF'' \<and>
       processed_events d' = with_action e d ev ''OFF'' \<and>
       dialogs out = (False, False, True)) \<and>
    (triggered_id_of tr = Inr ''disclaimer-no'' \<longrightarrow>
       user_control d' = with_decision e d ''ON'' \<and>
       processed_events d' = with_action e d ev ''ON'' \<and>
       dialogs out = (False, False, False)) \<and>
    (triggered_id_of tr = Inr ''caution-close'' \<longrightarrow>
       user_control d' = user_control d \<and> processed_events d' = processed_events d \<and>
       dialogs out = (False, False, False))"
proof -
  have flags: "\<not> fail_record_event_as_processed e" "\<not> fail_update_user_control_decision e"
    using ok by (simp_all add: store_ok_def)
  have step: "\<And>tid. triggered_id_of tr = Inr tid \<Longrightarrow> tid \<noteq> ''interval-component'' \<Longrightarrow>
    \<exists>l1 d1. (out, d') = (let (l, x) = click_phase e tid (Some ev) (l1, d1) in (outputs_of l, x)) \<and>
      processed_events d1 = processed_events d \<and> user_control d1 = user_control d \<and>
      seq_processed_events d1 = seq_processed_events d \<and> seq_user_control d1 = seq_user_control d"
  proof -
    fix tid
    assume t: "triggered_id_of tr = Inr tid" and nt: "tid \<noteq> ''interval-component''"
    obtain l1 d1 where rp: "reminder_phase e tid (Some ev) s (start_locals st, d) = (l1, d1)"
      by (cases "reminder_phase e tid (Some ev) s (start_locals st, d)")
    have "(out, d') = (let (l, x) = click_phase e tid (Some ev) (l1, d1) in (outputs_of l, x))"
      using handler_as_phases [OF t latest, of st] res rp by simp
    then show "\<exists>l1 d1. (out, d') = (let (l, x) = click_phase e tid (Some ev) (l1, d1) in (outputs_of l, x)) \<and>
      processed_events d1 = processed_events d \<and> user_control d1 = user_control d \<and>
      seq_processed_events d1 = seq_processed_events d \<and> seq_user_control d1 = seq_user_control d"
      using reminder_phase_click_db [OF nt rp] by blast
  qed
  have a: "triggered_id_of tr = Inr ''enable-fan-filterstate'' \<longrightarrow>
       user_control d' = with_decision e d ''ON'' \<and>
       processed_events d' = with_action e d ev ''ON'' \<and>
       dialogs out = (False, False, False)"
  proof
    assume t: "triggered_id_of tr = Inr ''enable-fan-filterstate''"
    from step [OF t] obtain l1 d1 where
      "(out, d') = (let (l, x) = click_phase e ''enable-fan-filterstate'' (Some ev) (l1, d1) in (outputs_of l, x))"
      "processed_events d1 = processed_events d" "user_control d1 = user_control d"
      "seq_processed_events d1 = seq_processed_events d" "seq_user_control d1 = seq_user_control d"
      by auto
    then show "user_control d' = with_decision e d ''ON'' \<and>
       processed_events d' = with_action e d ev ''ON'' \<and>
       dialogs out = (False, False, False)"
      using flags nz
      by (simp add: click_phase_def click_dialogs record_if_event_def record_event_as_processed_def
            update_user_control_decision_def with_decision_def with_action_def)
  qed
  have b: "triggered_id_of tr = Inr ''keep-fan-off-filterstate'' \<longrightarrow>
       user_control d' = user_control d \<and> processed_events d' = processed_events d \<and>
       dialogs out = (False, True, False)"
  proof
    assume t: "triggered_id_of tr = Inr ''keep-fan-off-filterstate''"
    from step [OF t] obtain l1 d1 where
      "(out, d') = (let (l, x) = click_phase e ''keep-fan-off-filterstate'' (Some ev) (l1, d1) in (outputs_of l, x))"
      "processed_events d1 = processed_events d" "user_control d1 = user_control d"
      by auto
    then show "user_control d' = user_control d \<and> processed_events d' = processed_events d \<and>
       dialogs out = (False, True, False)"
      by (simp add: click_phase_def click_dialogs)
  qed
  have c: "triggered_id_of tr = Inr ''disclaimer-yes'' \<longrightarrow>
       user_control d' = with_decision e d ''OFF'' \<and>
       processed_events d' = with_action e d ev ''OFF'' \<and>
       dialogs out = (False, False, True)"
  proof
    assume t: "triggered_id_of tr = Inr ''disclaimer-yes''"
    from step [OF t] obtain l1 d1 where
      "(out, d') = (let (l, x) = click_phase e ''disclaimer-yes'' (Some ev) (l1, d1) in (outputs_of l, x))"
      "processed_events d1 = processed_events d" "user_control d1 = user_control d"
      "seq_processed_events d1 = seq_processed_events d" "seq_user_control d1 = seq_user_control d"
      by auto
    then show "user_control d' = with_decision e d ''OFF'' \<and>
       processed_events d' = with_action e d ev ''OFF'' \<and>
       dialogs out = (False, False, True)"
      using flags nz
      by (simp add: click_phase_def click_dialogs record_if_event_def record_event_as_processed_def
            update_user_control_decision_def with_decision_def with_action_def)
  qed
  have dd: "triggered_id_of tr = Inr ''disclaimer-no'' \<longrightarrow>
       user_control d' = with_decision e d ''ON'' \<and>
       processed_events d' = with_action e d ev ''ON'' \<and>
       dialogs out = (False, False, False)"
  proof
    assume t: "triggered_id_of tr = Inr ''disclaimer-no''"
    from step [OF t] obtain l1 d1 where
      "(out, d') = (let (l, x) = click_phase e ''disclaimer-no'' (Some ev) (l1, d1) in (outputs_of l, x))"
      "processed_events d1 = processed_events d" "user_control d1 = user_control d"
      "seq_processed_events d1 = seq_processed_events d" "seq_user_control d1 = seq_user_control d"
      by auto
    then show "user_control d' = with_decision e d ''ON'' \<and>
       processed_events d' = with_action e d ev ''ON'' \<and>
       dialogs out = (False, False, False)"
      using flags nz
      by (simp add: click_phase_def click_dialogs record_if_event_def record_event_as_processed_def
            update_user_control_decision_def with_decision_def with_action_def)
  qed
  have ee: "triggered_id_of tr = Inr ''caution-close'' \<longrightarrow>
       user_control d' = user_control d \<and> processed_events d' = processed_events d \<and>
       dialogs out = (False, False, False)"
  proof
    assume t: "triggered_id_of tr = Inr ''caution-close''"
    from step [OF t] obtain l1 d1 where
      "(out, d') = (let (l, x) = click_phase e ''caution-close'' (Some ev) (l1, d1) in (outputs_of l, x))"
      "processed_events d1 = processed_events d" "user_control d1 = user_control d"
      by auto
    then show "user_control d' = user_control d \<and> processed_events d' = processed_events d \<and>
       dialogs out = (False, False, False)"
      by (simp add: click_phase_def click_dialogs)
  qed
  show ?thesis using a b c dd ee by blast
qed

theorem operator_actions_record_and_move_witness:
  "store_ok sample_env \<and>
   triggered_id_of [''enable-fan-filterstate.n_clicks''] = Inr ''enable-fan-filterstate'' \<and>
   dialogs (fst (handle_filter_state_event sample_env [''enable-fan-filterstate.n_clicks'']
                   initial_ui sample_db)) = (False, False, False) \<and>
   map uc_user_input
     (user_control (snd (handle_filter_state_event sample_env
                           [''enable-fan-filterstate.n_clicks''] initial_ui sample_db))) =
     [''ON''] \<and>
   map pe_action
     (processed_events (snd (handle_filter_state_event sample_env
                               [''enable-fan-filterstate.n_clicks''] initial_ui sample_db))) =
     [''ON'']"
proof -
  have nz: "(5::int) \<noteq> 0" by simp
  have t: "triggered_id_of [''enable-fan-filterstate.n_clicks''] = Inr ''enable-fan-filterstate''"
    by (simp add: triggered_id_of_def)
  have res: "handle_filter_state_event sample_env [''enable-fan-filterstate.n_clicks'']
               initial_ui sample_db =
             (fst (handle_filter_state_event sample_env [''enable-fan-filterstate.n_clicks'']
                     initial_ui sample_db),
              snd (handle_filter_state_event sample_env [''enable-fan-filterstate.n_clicks'']
                     initial_ui sample_db))"
    by simp
  have u: "map uc_user_input (with_decision sample_env sample_db ''ON'') = [''ON'']"
    by (simp add: with_decision_def sample_db_def)
  have p: "map pe_action (with_action sample_env sample_db 5 ''ON'') = [''ON'']"
    by (simp add: with_action_def sample_db_def)
  show ?thesis
    using operator_actions_record_and_move [OF sample_env_ok sample_db_latest nz res]
          sample_env_ok t u p
    by simp
qed

section \<open>One automatic prompt per event\<close>

lemma ledger_has_rows: "ledger_has d ev = (rows_for ev d \<noteq> [])"
  by (simp add: ledger_has_def rows_for_def list_ex_iff filter_empty_conv)

lemma sensor_write_ledger:
  "processed_events (sensor_write rows d) = processed_events d"
  "rows_for ev (sensor_write rows d) = rows_for ev d"
  "ledger_has (sensor_write rows d) ev = ledger_has d ev"
  by (simp_all add: sensor_write_def rows_for_def ledger_has_def)

text \<open>What a tick can do to the ledger rows of one event.\<close>

lemma tick_rows:
  assumes tick: "is_tick tr" and rd: "\<not> fail_is_event_processed e"
  shows "rows_for ev (snd (handle_filter_state_event e tr st d)) = rows_for ev d \<or>
         (\<not> ledger_has d ev \<and> length (rows_for ev (snd (handle_filter_state_event e tr st d))) = 1)"
proof -
  obtain le ls where latest: "get_last_filter_state e d = (le, ls)"
    by (cases "get_last_filter_state e d")
  note h = tick_result [OF tick latest, of st]
  show ?thesis
    using h rd
    by (auto simp: reminder_phase_def remove_reminder_def record_event_as_processed_def
          is_event_processed_ledger rows_for_def ledger_has_rows Let_def
          split: prod.splits option.splits if_splits)
qed

lemma tick_rows_kept:
  "is_tick tr \<Longrightarrow> \<not> fail_is_event_processed e \<Longrightarrow> ledger_has d ev \<Longrightarrow>
   rows_for ev (snd (handle_filter_state_event e tr st d)) = rows_for ev d"
  using tick_rows [of tr e ev st d] by blast



lemma tick_quiet_when_processed:
  assumes tick: "is_tick tr" and rd: "\<not> fail_is_event_processed e"
    and led: "ledger_has d ev"
    and latest: "fst (get_last_filter_state e d) = Some ev \<or> fst (get_last_filter_state e d) = None"
    and nd: "fst (get_due_reminder e d) \<noteq> Some ev"
  shows "quiet e tr st d"
proof -
  obtain le ls where l: "get_last_filter_state e d = (le, ls)"
    by (cases "get_last_filter_state e d")
  obtain de rid where g: "get_due_reminder e d = (de, rid)"
    by (cases "get_due_reminder e d")
  note h = tick_result [OF tick l, of st]
  show ?thesis
    using h rd led latest nd l g
    by (auto simp: quiet_def reminder_phase_def truthy_def is_event_processed_ledger
          dialogs_def dialogs_in_def outputs_of_def start_locals_def
          split: option.splits)
qed



section \<open>Deferrals\<close>

lemma get_last_filter_state_same_table:
  "filter_state d' = filter_state d \<Longrightarrow> \<not> fail_get_last_filter_state e \<Longrightarrow>
   get_last_filter_state e' d' =
     (if fail_get_last_filter_state e' then (None, ''OFF'') else get_last_filter_state e d)"
  by (simp add: get_last_filter_state_def)

lemma defer_click:
  assumes ok: "store_ok e" and nz: "ev \<noteq> 0"
    and due: "plus_minutes (now e) m = Some due"
    and d1: "processed_events d1 = processed_events d" "user_control d1 = user_control d"
      "seq_processed_events d1 = seq_processed_events d" "seq_reminders d1 = seq_reminders d"
      "filter_state d1 = filter_state d" "set (reminders d1) \<subseteq> set (reminders d)"
    and r: "d' = record_event_as_processed e ev action (add_reminder e ev m label d1)"
    and o: "dialogs out = (False, False, False)"
  shows "deferral_done e d ev (strftime due) label action out d' \<and>
         filter_state d' = filter_state d \<and> ledger_has d' ev"
proof -
  have flags: "\<not> fail_record_event_as_processed e" "\<not> fail_add_reminder e"
    using ok by (simp_all add: store_ok_def)
  show ?thesis
    using flags due d1 r o
    by (auto simp: deferral_done_def record_event_as_processed_def add_reminder_def
          with_action_def ledger_has_def list_all_iff)
qed

text \<open>
  Claim C6. The database operations succeed, the latest condition event is \<open>ev\<close>, and the
  clock reads \<open>now e\<close> with \<open>now e\<close> plus 20 (plus 60) minutes representable. Then defer-20
  closes every dialog (IDLE), adds exactly one reminder (\<open>ev\<close>, the rendered time 20
  minutes later, "20 minutes") to the queue and appends exactly one ledger row
  (\<open>ev\<close>, REMIND_20); defer-60 does the same with 60 minutes, "1 hour" and REMIND_60. After
  either, \<open>ev\<close> has a ledger row, so later ticks (whose processed-check reads succeed) add no
  ledger row for \<open>ev\<close>, and a tick on which the due query returns no reminder of \<open>ev\<close>
  changes neither the dialogs nor the database: the event is not prompted again until a
  reminder of it fires.
\<close>

theorem deferral_schedules_one_reminder:
  assumes ok: "store_ok e"
    and latest: "get_last_filter_state e d = (Some ev, s)"
    and nz: "ev \<noteq> 0"
    and res: "handle_filter_state_event e tr st d = (out, d')"
    and t20: "plus_minutes (now e) 20 = Some due20"
    and t60: "plus_minutes (now e) 60 = Some due60"
  shows
   "(triggered_id_of tr = Inr ''remind-me-filterstate'' \<longrightarrow>
       deferral_done e d ev (strftime due20) ''20 minutes'' ''REMIND_20'' out d') \<and>
    (triggered_id_of tr = Inr ''remind-me-hour-filterstate'' \<longrightarrow>
       deferral_done e d ev (strftime due60) ''1 hour'' ''REMIND_60'' out d') \<and>
    (triggered_id_of tr = Inr ''remind-me-filterstate'' \<or>
     triggered_id_of tr = Inr ''remind-me-hour-filterstate'' \<longrightarrow>
       ledger_has d' ev \<and>
       (\<forall>e2 tr2 st2 rows. is_tick tr2 \<and> \<not> fail_is_event_processed e2 \<longrightarrow>
          rows_for ev (snd (handle_filter_state_event e2 tr2 st2 (sensor_write rows d'))) =
          rows_for ev d') \<and>
       (\<forall>e2 tr2 st2. is_tick tr2 \<and> \<not> fail_is_event_processed e2 \<and>
          fst (get_due_reminder e2 d') \<noteq> Some ev \<longrightarrow> quiet e2 tr2 st2 d'))"
proof -
  have nf: "\<not> fail_get_last_filter_state e" using ok by (simp add: store_ok_def)
  have step: "\<And>tid. triggered_id_of tr = Inr tid \<Longrightarrow> tid \<noteq> ''interval-component'' \<Longrightarrow>
    \<exists>l1 d1. (out, d') = (let (l, x) = click_phase e tid (Some ev) (l1, d1) in (outputs_of l, x)) \<and>
      processed_events d1 = processed_events d \<and> user_control d1 = user_control d \<and>
      seq_processed_events d1 = seq_processed_events d \<and> seq_reminders d1 = seq_reminders d \<and>
      filter_state d1 = filter_state d \<and> set (reminders d1) \<subseteq> set (reminders d)"
  proof -
    fix tid
    assume t: "triggered_id_of tr = Inr tid" and nt: "tid \<noteq> ''interval-component''"
    obtain l1 d1 where rp: "reminder_phase e tid (Some ev) s (start_locals st, d) = (l1, d1)"
      by (cases "reminder_phase e tid (Some ev) s (start_locals st, d)")
    have "(out, d') = (let (l, x) = click_phase e tid (Some ev) (l1, d1) in (outputs_of l, x))"
      using handler_as_phases [OF t latest, of st] res rp by simp
    then show "\<exists>l1 d1. (out, d') = (let (l, x) = click_phase e tid (Some ev) (l1, d1) in (outputs_of l, x)) \<and>
      processed_events d1 = processed_events d \<and> user_control d1 = user_control d \<and>
      seq_processed_events d1 = seq_processed_events d \<and> seq_reminders d1 = seq_reminders d \<and>
      filter_state d1 = filter_state d \<and> set (reminders d1) \<subseteq> set (reminders d)"
      using reminder_phase_click_db [OF nt rp] by blast
  qed
  have a: "triggered_id_of tr = Inr ''remind-me-filterstate'' \<Longrightarrow>
       deferral_done e d ev (strftime due20) ''20 minutes'' ''REMIND_20'' out d' \<and>
       filter_state d' = filter_state d \<and> ledger_has d' ev"
  proof -
    assume t: "triggered_id_of tr = Inr ''remind-me-filterstate''"
    from step [OF t] obtain l1 d1 where
      c: "(out, d') = (let (l, x) = click_phase e ''remind-me-filterstate'' (Some ev) (l1, d1) in (outputs_of l, x))"
      and d1: "processed_events d1 = processed_events d" "user_control d1 = user_control d"
      "seq_processed_events d1 = seq_processed_events d" "seq_reminders d1 = seq_reminders d"
      "filter_state d1 = filter_state d" "set (reminders d1) \<subseteq> set (reminders d)"
      by auto
    have r: "d' = record_event_as_processed e ev ''REMIND_20'' (add_reminder e ev 20 ''20 minutes'' d1)"
      and o: "dialogs out = (False, False, False)"
      using c nz by (simp_all add: click_phase_def click_dialogs)
    show ?thesis
      by (rule defer_click [OF ok nz t20 d1 r o])
  qed
  have b: "triggered_id_of tr = Inr ''remind-me-hour-filterstate'' \<Longrightarrow>
       deferral_done e d ev (strftime due60) ''1 hour'' ''REMIND_60'' out d' \<and>
       filter_state d' = filter_state d \<and> ledger_has d' ev"
  proof -
    assume t: "triggered_id_of tr = Inr ''remind-me-hour-filterstate''"
    from step [OF t] obtain l1 d1 where
      c: "(out, d') = (let (l, x) = click_phase e ''remind-me-hour-filterstate'' (Some ev) (l1, d1) in (outputs_of l, x))"
      and d1: "processed_events d1 = processed_events d" "user_control d1 = user_control d"
      "seq_processed_events d1 = seq_processed_events d" "seq_reminders d1 = seq_reminders d"
      "filter_state d1 = filter_state d" "set (reminders d1) \<subseteq> set (reminders d)"
      by auto
    have r: "d' = record_event_as_processed e ev ''REMIND_60'' (add_reminder e ev 60 ''1 hour'' d1)"
      and o: "dialogs out = (False, False, False)"
      using c nz by (simp_all add: click_phase_def click_dialogs)
    show ?thesis
      by (rule defer_click [OF ok nz t60 d1 r o])
  qed
  have later: "filter_state d' = filter_state d \<Longrightarrow> ledger_has d' ev \<Longrightarrow>
       ledger_has d' ev \<and>
       (\<forall>e2 tr2 st2 rows. is_tick tr2 \<and> \<not> fail_is_event_processed e2 \<longrightarrow>
          rows_for ev (snd (handle_filter_state_event e2 tr2 st2 (sensor_write rows d'))) =
          rows_for ev d') \<and>
       (\<forall>e2 tr2 st2. is_tick tr2 \<and> \<not> fail_is_event_processed e2 \<and>
          fst (get_due_reminder e2 d') \<noteq> Some ev \<longrightarrow> quiet e2 tr2 st2 d')"
  proof -
    assume fs: "filter_state d' = filter_state d" and led: "ledger_has d' ev"
    have k: "\<And>e2 tr2 st2 rows. is_tick tr2 \<Longrightarrow> \<not> fail_is_event_processed e2 \<Longrightarrow>
          rows_for ev (snd (handle_filter_state_event e2 tr2 st2 (sensor_write rows d'))) =
          rows_for ev d'"
      using tick_rows_kept [of _ _ "sensor_write _ d'" ev] led
      by (simp add: sensor_write_ledger)
    have l: "\<And>e2. fst (get_last_filter_state e2 d') = Some ev \<or> fst (get_last_filter_state e2 d') = None"
      using get_last_filter_state_same_table [OF fs nf] latest by simp
    have q: "\<And>e2 tr2 st2. is_tick tr2 \<Longrightarrow> \<not> fail_is_event_processed e2 \<Longrightarrow>
          fst (get_due_reminder e2 d') \<noteq> Some ev \<Longrightarrow> quiet e2 tr2 st2 d'"
      using tick_quiet_when_processed [OF _ _ led l] by blast
    show ?thesis using led k q by blast
  qed
  show ?thesis using a b later by blast
qed

lemma sample_plus_20:
  "plus_minutes sample_time 20 =
     Some \<lparr>year = 2024, month = 2, day = 29, hour = 0, minute = 10, second = 7,
           microsecond = 500000\<rparr>"
  by (simp add: plus_minutes_def sample_time_def next_day_def days_in_month_def is_leap_def Let_def)

lemma sample_plus_60:
  "plus_minutes sample_time 60 =
     Some \<lparr>year = 2024, month = 2, day = 29, hour = 0, minute = 50, second = 7,
           microsecond = 500000\<rparr>"
  by (simp add: plus_minutes_def sample_time_def next_day_def days_in_month_def is_leap_def Let_def)

lemma digit_char_Suc_0: "digit_char (Suc 0) = CHR ''1''"
  using digit_char_eval(2) by simp

lemma strftime_sample_plus_20:
  "strftime \<lparr>year = 2024, month = 2, day = 29, hour = 0, minute = 10, second = 7,
           microsecond = 500000\<rparr> = ''2024-02-29 00:10:07''"
  by (simp add: strftime_def dec.simps zfill_def digit_char_eval digit_char_Suc_0)

theorem deferral_schedules_one_reminder_witness:
  "store_ok sample_env \<and>
   triggered_id_of [''remind-me-filterstate.n_clicks''] = Inr ''remind-me-filterstate'' \<and>
   deferral_done sample_env sample_db 5 ''2024-02-29 00:10:07'' ''20 minutes'' ''REMIND_20''
     (fst (handle_filter_state_event sample_env [''remind-me-filterstate.n_clicks'']
             initial_ui sample_db))
     (snd (handle_filter_state_event sample_env [''remind-me-filterstate.n_clicks'']
             initial_ui sample_db))"
proof -
  have nz: "(5::int) \<noteq> 0" by simp
  have t: "triggered_id_of [''remind-me-filterstate.n_clicks''] = Inr ''remind-me-filterstate''"
    by (simp add: triggered_id_of_def)
  have res: "handle_filter_state_event sample_env [''remind-me-filterstate.n_clicks'']
               initial_ui sample_db =
             (fst (handle_filter_state_event sample_env [''remind-me-filterstate.n_clicks'']
                     initial_ui sample_db),
              snd (handle_filter_state_event sample_env [''remind-me-filterstate.n_clicks'']
                     initial_ui sample_db))"
    by simp
  have t20: "plus_minutes (now sample_env) 20 =
     Some \<lparr>year = 2024, month = 2, day = 29, hour = 0, minute = 10, second = 7,
           microsecond = 500000\<rparr>"
    using sample_plus_20 by (simp add: now_sample_env)
  have t60: "plus_minutes (now sample_env) 60 =
     Some \<lparr>year = 2024, month = 2, day = 29, hour = 0, minute = 50, second = 7,
           microsecond = 500000\<rparr>"
    using sample_plus_60 by (simp add: now_sample_env)
  show ?thesis
    using deferral_schedules_one_reminder [OF sample_env_ok sample_db_latest nz res t20 t60]
          sample_env_ok t
    by (simp add: strftime_sample_plus_20)
qed

section \<open>A due reminder that does not fire\<close>

text \<open>
  Claim C1 at a concrete input. The reminder of event 5 is due, but the latest condition
  event is 6 with state OFF. The due query returns the reminder, the first test of the
  callback fails, and \<open>remove_reminder\<close> is not called: after the tick the database is
  unchanged and the due query still returns the same reminder.
\<close>

theorem due_reminder_left_when_condition_cleared:
  "get_due_reminder sample_env sample_db_cleared = (Some 5, Some 1) \<and>
   get_last_filter_state sample_env sample_db_cleared = (Some 6, ''OFF'') \<and>
   snd (handle_filter_state_event sample_env tick initial_ui sample_db_cleared) = sample_db_cleared \<and>
   get_due_reminder sample_env (snd (handle_filter_state_event sample_env tick initial_ui sample_db_cleared)) = (Some 5, Some 1)"
proof -
  have g: "get_due_reminder sample_env sample_db_cleared = (Some 5, Some 1)"
    by (simp add: get_due_reminder_def now_sample_env strftime_sample_time)
       (simp add: sample_env_def sample_db_cleared_def)
  have l: "get_last_filter_state sample_env sample_db_cleared = (Some 6, ''OFF'')"
    by (simp add: get_last_filter_state_def sample_env_def sample_db_cleared_def)
  have h: "snd (handle_filter_state_event sample_env tick initial_ui sample_db_cleared) = sample_db_cleared"
    using tick_result [OF tick_is_tick l, of initial_ui]
    by (simp add: reminder_phase_not_on)
  show ?thesis using g l h by simp
qed

section \<open>Failing reads\<close>

lemma click_phase_modal:
  "modal_open (fst (click_phase e tid le (l, d))) = modal_open (fst (click_phase e' tid le' (l', d'))) \<or>
   click_phase e tid le (l, d) = (l, d) \<and> click_phase e' tid le' (l', d') = (l', d')"
  by (simp add: click_phase_def set_dialogs_def)

lemma reminder_phase_fail_safe:
  assumes rd: "\<not> fail_is_event_processed e"
    and m: "modal_open (fst (reminder_phase e tid (fst (get_last_filter_state e d))
                               (snd (get_last_filter_state e d)) (l, d)))"
  shows "modal_open (fst (reminder_phase (with_reads_ok e) tid
                            (fst (get_last_filter_state (with_reads_ok e) d))
                            (snd (get_last_filter_state (with_reads_ok e) d)) (l, d)))"
  using rd m
  by (auto simp: reminder_phase_def get_last_filter_state_def get_due_reminder_def
        is_event_processed_def with_reads_ok_def truthy_def Let_def
        split: list.splits option.splits if_splits prod.splits)

lemma handler_fail_safe:
  assumes rd: "\<not> fail_is_event_processed e"
    and m: "out_modal_is_open (fst (handle_filter_state_event e tr st d))"
  shows "out_modal_is_open (fst (handle_filter_state_event (with_reads_ok e) tr st d))"
proof (cases "triggered_id_of tr")
  case (Inl err)
  then show ?thesis
    using m by (simp add: handle_filter_state_event_def try_body_def)
next
  case (Inr tid)
  let ?e' = "with_reads_ok e"
  obtain l1 d1 where r1: "reminder_phase e tid (fst (get_last_filter_state e d))
                               (snd (get_last_filter_state e d)) (start_locals st, d) = (l1, d1)"
    by (cases "reminder_phase e tid (fst (get_last_filter_state e d))
                               (snd (get_last_filter_state e d)) (start_locals st, d)")
  obtain l2 d2 where r2: "reminder_phase ?e' tid (fst (get_last_filter_state ?e' d))
                               (snd (get_last_filter_state ?e' d)) (start_locals st, d) = (l2, d2)"
    by (cases "reminder_phase ?e' tid (fst (get_last_filter_state ?e' d))
                               (snd (get_last_filter_state ?e' d)) (start_locals st, d)")
  have h1: "out_modal_is_open (fst (handle_filter_state_event e tr st d)) =
            modal_open (fst (click_phase e tid (fst (get_last_filter_state e d)) (l1, d1)))"
    using handler_as_phases [OF Inr, of e d "fst (get_last_filter_state e d)"
            "snd (get_last_filter_state e d)" st] r1
    by (simp add: outputs_of_def split: prod.splits)
  have h2: "out_modal_is_open (fst (handle_filter_state_event ?e' tr st d)) =
            modal_open (fst (click_phase ?e' tid (fst (get_last_filter_state ?e' d)) (l2, d2)))"
    using handler_as_phases [OF Inr, of ?e' d "fst (get_last_filter_state ?e' d)"
            "snd (get_last_filter_state ?e' d)" st] r2
    by (simp add: outputs_of_def split: prod.splits)
  have fs: "modal_open l1 \<Longrightarrow> modal_open l2"
    using reminder_phase_fail_safe [OF rd, of tid d "start_locals st"] r1 r2 by simp
  show ?thesis
    using click_phase_modal [of e tid "fst (get_last_filter_state e d)" l1 d1
            ?e' "fst (get_last_filter_state ?e' d)" l2 d2] h1 h2 m fs
    by auto
qed

lemma tick_quiet_without_condition:
  assumes tick: "is_tick tr" and f: "fail_get_last_filter_state e \<or> filter_state d = []"
  shows "quiet e tr st d"
proof -
  have l: "get_last_filter_state e d = (None, ''OFF'')"
    using f by (auto simp: get_last_filter_state_def)
  show ?thesis
    using tick_result [OF tick l, of st]
    by (simp add: reminder_phase_not_on quiet_def dialogs_def dialogs_in_def outputs_of_def
          start_locals_def)
qed

lemma stored_dialogs:
  "dialogs_in (stored (fst (handle_filter_state_event e tr st d))) =
   dialogs (fst (handle_filter_state_event e tr st d))"
  by (simp add: handle_filter_state_event_def try_body_def dialogs_in_def dialogs_def stored_def
        outputs_of_def unchanged_outputs_def split: sum.splits prod.splits)

lemma idle_dialogs: "in_state IDLE st = (dialogs_in st = (False, False, False))"
  by (simp add: dialogs_in_def)

lemma try_body_returns: "tr \<noteq> [] \<Longrightarrow> \<exists>out. fst (try_body e tr st d) = Inr out"
  by (cases tr) (simp_all add: try_body_def triggered_id_of_def split: prod.splits)

text \<open>
  Claim C2 as stated fails when only the processed-check read fails: it degrades to "not
  processed", so a tick opens the main modal for event 5, which is ON and already handled,
  while with the read succeeding the modal stays closed.
\<close>

theorem failed_processed_check_opens_modal_counterexample:
  "out_modal_is_open (fst (handle_filter_state_event sample_env_check_fails tick initial_ui
                             sample_db_handled)) \<and>
   \<not> out_modal_is_open (fst (handle_filter_state_event sample_env tick initial_ui
                               sample_db_handled))"
proof -
  have l1: "get_last_filter_state sample_env sample_db_handled = (Some 5, ''ON'')"
    by (simp add: get_last_filter_state_def sample_env_def sample_db_handled_def)
  have l2: "get_last_filter_state sample_env_check_fails sample_db_handled = (Some 5, ''ON'')"
    by (simp add: get_last_filter_state_def sample_env_check_fails_def sample_env_def
          sample_db_handled_def)
  have g1: "get_due_reminder sample_env sample_db_handled = (None, None)"
    by (simp add: get_due_reminder_def sample_env_def sample_db_handled_def)
  have g2: "get_due_reminder sample_env_check_fails sample_db_handled = (None, None)"
    by (simp add: get_due_reminder_def sample_env_check_fails_def sample_env_def
          sample_db_handled_def)
  have p1: "is_event_processed sample_env sample_db_handled 5"
    by (simp add: is_event_processed_def sample_env_def sample_db_handled_def)
  have p2: "\<not> is_event_processed sample_env_check_fails sample_db_handled 5"
    by (simp add: is_event_processed_def sample_env_check_fails_def)
  have a: "out_modal_is_open (fst (handle_filter_state_event sample_env_check_fails tick
                                     initial_ui sample_db_handled))"
    using tick_result [OF tick_is_tick l2, of initial_ui] p2
    by (simp add: reminder_phase_none_due [OF g2] truthy_def outputs_of_def)
  have b: "\<not> out_modal_is_open (fst (handle_filter_state_event sample_env tick initial_ui
                                       sample_db_handled))"
    using tick_result [OF tick_is_tick l1, of initial_ui] p1
    by (simp add: reminder_phase_none_due [OF g1] truthy_def outputs_of_def start_locals_def
          initial_ui_def)
  show ?thesis using a b by simp
qed

text \<open>
  Claim C2, as it holds. A failed or empty condition read degrades to no event and OFF, a
  failed or empty due query to no reminder due, a failed processed-check to "not processed".
  No exception leaves the body once the trigger is known, so the invocation returns its
  tuple. When the condition read fails (or the table is empty) a tick changes neither the
  dialogs nor the database, so IDLE stays IDLE. And failures of the condition read and of the
  due query never open the main modal: if the main modal is open after an invocation whose
  processed-check read succeeded, it is also open after the same invocation with those two
  reads succeeding.
\<close>

theorem failed_reads_degrade_to_defaults:
  "(fail_get_last_filter_state e \<or> filter_state d = [] \<longrightarrow>
      get_last_filter_state e d = (None, ''OFF'')) \<and>
   (fail_get_due_reminder e \<or> due_rows e d = [] \<longrightarrow> get_due_reminder e d = (None, None)) \<and>
   (fail_is_event_processed e \<longrightarrow> \<not> is_event_processed e d ev) \<and>
   (tr \<noteq> [] \<longrightarrow> (\<exists>out. fst (try_body e tr st d) = Inr out)) \<and>
   (is_tick tr \<and> (fail_get_last_filter_state e \<or> filter_state d = []) \<longrightarrow>
      quiet e tr st d \<and>
      (in_state IDLE st \<longrightarrow> in_state IDLE (stored (fst (handle_filter_state_event e tr st d))))) \<and>
   (\<not> fail_is_event_processed e \<and> out_modal_is_open (fst (handle_filter_state_event e tr st d)) \<longrightarrow>
      out_modal_is_open (fst (handle_filter_state_event (with_reads_ok e) tr st d)))"
proof -
  have a: "fail_get_last_filter_state e \<or> filter_state d = [] \<longrightarrow>
      get_last_filter_state e d = (None, ''OFF'')"
    by (auto simp: get_last_filter_state_def)
  have b: "fail_get_due_reminder e \<or> due_rows e d = [] \<longrightarrow> get_due_reminder e d = (None, None)"
    by (auto simp: get_due_reminder_def due_rows_def find_as_filter)
  have c: "fail_is_event_processed e \<longrightarrow> \<not> is_event_processed e d ev"
    by (simp add: is_event_processed_def)
  have q: "is_tick tr \<and> (fail_get_last_filter_state e \<or> filter_state d = []) \<longrightarrow>
      quiet e tr st d \<and>
      (in_state IDLE st \<longrightarrow> in_state IDLE (stored (fst (handle_filter_state_event e tr st d))))"
  proof
    assume h: "is_tick tr \<and> (fail_get_last_filter_state e \<or> filter_state d = [])"
    then have qu: "quiet e tr st d"
      using tick_quiet_without_condition [of tr e d st] by blast
    then have "dialogs_in (stored (fst (handle_filter_state_event e tr st d))) = dialogs_in st"
      using stored_dialogs [of e tr st d] by (simp add: quiet_def)
    then have "in_state IDLE st \<longrightarrow>
               in_state IDLE (stored (fst (handle_filter_state_event e tr st d)))"
      by (simp only: idle_dialogs simp_thms)
    with qu show "quiet e tr st d \<and>
      (in_state IDLE st \<longrightarrow> in_state IDLE (stored (fst (handle_filter_state_event e tr st d))))"
      by blast
  qed
  show ?thesis
    using a b c q try_body_returns [of tr e st d] handler_fail_safe [of e tr st d]
    by blast
qed

theorem failed_reads_degrade_to_defaults_witness:
  "fail_get_last_filter_state sample_env_outage \<and> fail_get_due_reminder sample_env_outage \<and>
   fail_is_event_processed sample_env_outage \<and> is_tick tick \<and> in_state IDLE initial_ui \<and>
   get_last_filter_state sample_env_outage sample_db = (None, ''OFF'') \<and>
   get_due_reminder sample_env_outage sample_db = (None, None) \<and>
   quiet sample_env_outage tick initial_ui sample_db \<and>
   in_state IDLE
     (stored (fst (handle_filter_state_event sample_env_outage tick initial_ui sample_db)))"
proof -
  have f: "fail_get_last_filter_state sample_env_outage"
    "fail_get_due_reminder sample_env_outage" "fail_is_event_processed sample_env_outage"
    by (simp_all add: sample_env_outage_def)
  show ?thesis
    using failed_reads_degrade_to_defaults [of sample_env_outage sample_db 5 tick initial_ui]
          f tick_is_tick initial_idle
    by blast
qed

end
